theory Spec2Isabelle
  imports Complex_Main "HOL-Library.Word" "HOL-Library.Signed_Division"
begin

section \<open>Machine integers and undefined behaviour\<close>

text \<open>
  The trader is C++ compiled for a 64-bit target: \<^verbatim>\<open>unsigned long\<close> is a 64-bit word
  whose arithmetic wraps around, \<^verbatim>\<open>long\<close> is a 64-bit and \<^verbatim>\<open>int\<close> a 32-bit signed
  integer. Signed values are mathematical integers here, and every signed operation
  checks its range: an overflow, \<^verbatim>\<open>std::abs\<close> of the least \<^verbatim>\<open>long\<close>, a division by
  zero and a vector access outside the vector are undefined behaviour in C++, and the
  model returns them as an error value instead of a result.
\<close>

type_synonym ulong = "64 word"

datatype ub = SignedOverflow | DivisionByZero | OutOfBounds | DoubleOutOfRange

definition LONG_MAX :: int where
  "LONG_MAX = 9223372036854775807"

definition LONG_MIN :: int where
  "LONG_MIN = - 9223372036854775808"

definition INT_MAX :: int where
  "INT_MAX = 2147483647"

definition long_result :: "int \<Rightarrow> ub + int" where
  "long_result x = (if LONG_MIN \<le> x \<and> x \<le> LONG_MAX then Inr x else Inl SignedOverflow)"

definition long_add :: "int \<Rightarrow> int \<Rightarrow> ub + int" where
  "long_add a b = long_result (a + b)"

definition long_sub :: "int \<Rightarrow> int \<Rightarrow> ub + int" where
  "long_sub a b = long_result (a - b)"

text \<open>\<^verbatim>\<open>std::abs(long)\<close>: undefined when the result is not representable.\<close>

definition long_abs :: "int \<Rightarrow> ub + int" where
  "long_abs x = long_result \<bar>x\<bar>"

text \<open>\<^verbatim>\<open>static_cast<long>(volume)\<close>: the two's complement reading of the word.\<close>

definition to_long :: "ulong \<Rightarrow> int" where
  "to_long v = sint v"

text \<open>A \<^verbatim>\<open>long\<close> or \<^verbatim>\<open>int\<close> converted to \<^verbatim>\<open>unsigned long\<close>: reduction modulo \<open>2 ^ 64\<close>.\<close>

definition to_ulong :: "int \<Rightarrow> ulong" where
  "to_ulong x = word_of_int x"

text \<open>\<^verbatim>\<open>sum / count\<close> with an \<^verbatim>\<open>unsigned long\<close> sum and an \<^verbatim>\<open>int\<close> count: the count is
  converted to \<^verbatim>\<open>unsigned long\<close> and the division is unsigned.\<close>

definition ulong_div :: "ulong \<Rightarrow> int \<Rightarrow> ub + ulong" where
  "ulong_div a c = (if to_ulong c = 0 then Inl DivisionByZero else Inr (a div to_ulong c))"

text \<open>\<^verbatim>\<open>buffer[i]\<close> on a \<^verbatim>\<open>std::vector\<close> with an \<^verbatim>\<open>int\<close> index.\<close>

definition vector_at :: "ulong list \<Rightarrow> int \<Rightarrow> ub + ulong" where
  "vector_at buffer i =
     (if i < 0 \<or> int (length buffer) \<le> i then Inl OutOfBounds else Inr (buffer ! nat i))"

section \<open>Constants of autotrader.cc\<close>

definition LOT_SIZE :: int where
  "LOT_SIZE = 200"

definition UNLOAD :: int where
  "UNLOAD = 25"

definition POSITION_LIMIT :: int where
  "POSITION_LIMIT = 100"

definition TICK_SIZE_IN_CENTS :: int where
  "TICK_SIZE_IN_CENTS = 100"

definition conversion_line_size :: int where
  "conversion_line_size = 9"

definition baseline_size :: int where
  "baseline_size = 26"

definition leading_span_b_window :: int where
  "leading_span_b_window = 52"

section \<open>The sliding window\<close>

text \<open>
  \<^verbatim>\<open>updateCircularBufferWithNewValue(buffer, index, count, newValue, sum, maxSize)\<close>
  changes its buffer, index, count and sum through references; the model returns the
  four of them. The caller chooses which sum variable goes with which buffer.
\<close>

type_synonym window = "ulong list \<times> int \<times> int \<times> ulong"

definition updateCircularBufferWithNewValue ::
  "ulong list \<Rightarrow> int \<Rightarrow> int \<Rightarrow> ulong \<Rightarrow> ulong \<Rightarrow> int \<Rightarrow> ub + window" where
  "updateCircularBufferWithNewValue buffer index count newValue wsum maxSize =
     (if index < 0 \<or> int (length buffer) \<le> index then Inl OutOfBounds
      else if INT_MAX < index + 1 then Inl SignedOverflow
      else if maxSize = 0 then Inl DivisionByZero
      else if count < maxSize
        then Inr (buffer[nat index := newValue], (index + 1) smod maxSize,
                  count + 1, wsum + newValue)
        else Inr (buffer[nat index := newValue], (index + 1) smod maxSize,
                  count, wsum - buffer ! nat index + newValue))"

text \<open>A sequence of pushes into one window of capacity \<open>maxSize\<close>.\<close>

fun push_all :: "int \<Rightarrow> window \<Rightarrow> ulong list \<Rightarrow> ub + window" where
  "push_all maxSize w [] = Inr w"
| "push_all maxSize (buffer, index, count, wsum) (v # vs) =
     (case updateCircularBufferWithNewValue buffer index count v wsum maxSize of
        Inl e \<Rightarrow> Inl e
      | Inr w' \<Rightarrow> push_all maxSize w' vs)"


section \<open>The Ichimoku indicator\<close>

text \<open>
  The indicator's buffers, sums, cursors and counts are global variables of
  autotrader.cc. There are three sums for four buffers: the lagging-span buffer has no
  sum variable of its own.
\<close>

record ichimoku_globals =
  conversionLineBuffer :: "ulong list"
  baselineBuffer :: "ulong list"
  leadingSpanBBuffer :: "ulong list"
  laggingSpanBuffer :: "ulong list"
  conversionLineSum :: ulong
  baselineSum :: ulong
  leadingSpanBSum :: ulong
  conversionLineIndex :: int
  baselineIndex :: int
  leadingSpanBIndex :: int
  laggingSpanIndex :: int
  conversionLineCount :: int
  baselineCount :: int
  leadingSpanBCount :: int
  laggingSpanCount :: int

definition initial_globals :: ichimoku_globals where
  "initial_globals =
     \<lparr>conversionLineBuffer = replicate (nat conversion_line_size) 0,
      baselineBuffer = replicate (nat baseline_size) 0,
      leadingSpanBBuffer = replicate (nat leading_span_b_window) 0,
      laggingSpanBuffer = replicate (nat baseline_size) 0,
      conversionLineSum = 0, baselineSum = 0, leadingSpanBSum = 0,
      conversionLineIndex = 0, baselineIndex = 0, leadingSpanBIndex = 0, laggingSpanIndex = 0,
      conversionLineCount = 0, baselineCount = 0, leadingSpanBCount = 0, laggingSpanCount = 0\<rparr>"

datatype IchimokuSignal = BUY | SELL | NEUTRAL

text \<open>
  Modelled from the spec: \<^verbatim>\<open>TOP_LEVEL_COUNT\<close> is declared in ready_trader_go/types.h,
  which is not among the sources; the spec gives the order book five levels a side. A
  \<^verbatim>\<open>std::array<unsigned long, TOP_LEVEL_COUNT>\<close> is five words, \<open>level0\<close> being
  element \<open>[0]\<close>.
\<close>

datatype PriceVolumeArray =
  PriceVolumeArray (level0: ulong) (level1: ulong) (level2: ulong) (level3: ulong) (level4: ulong)

text \<open>
  The index of the comparison sample,
  \<^verbatim>\<open>(laggingSpanIndex - baseline_size + laggingSpanBuffer.size()) % laggingSpanBuffer.size()\<close>:
  the \<^verbatim>\<open>int\<close> difference is converted to \<^verbatim>\<open>unsigned long\<close> before the size is added.
\<close>

definition comparison_sample :: "ulong list \<Rightarrow> int \<Rightarrow> ub + ulong" where
  "comparison_sample buffer index =
     (if length buffer = 0 then Inl DivisionByZero
      else let k = unat ((to_ulong (index - baseline_size) + of_nat (length buffer))
                          mod of_nat (length buffer))
           in if length buffer \<le> k then Inl OutOfBounds else Inr (buffer ! k))"

definition Ichimoku ::
  "ichimoku_globals \<Rightarrow> PriceVolumeArray \<Rightarrow> PriceVolumeArray \<Rightarrow> PriceVolumeArray \<Rightarrow> PriceVolumeArray
     \<Rightarrow> ub + (IchimokuSignal \<times> ichimoku_globals)" where
  "Ichimoku g askPrices askVolumes bidPrices bidVolumes =
     (let currentPrice = drop_bit 1 (level0 bidPrices + level0 askPrices) in
      case updateCircularBufferWithNewValue (conversionLineBuffer g) (conversionLineIndex g)
             (conversionLineCount g) currentPrice (conversionLineSum g) conversion_line_size of
        Inl e \<Rightarrow> Inl e
      | Inr (clBuffer, clIndex, clCount, clSum) \<Rightarrow>
      case ulong_div clSum clCount of
        Inl e \<Rightarrow> Inl e
      | Inr conversionLine \<Rightarrow>
      case updateCircularBufferWithNewValue (baselineBuffer g) (baselineIndex g)
             (baselineCount g) conversionLine (baselineSum g) baseline_size of
        Inl e \<Rightarrow> Inl e
      | Inr (blBuffer, blIndex, blCount, blSum) \<Rightarrow>
      case ulong_div blSum blCount of
        Inl e \<Rightarrow> Inl e
      | Inr baseline \<Rightarrow>
      let leadingSpanA = drop_bit 1 (conversionLine + baseline) in
      case updateCircularBufferWithNewValue (leadingSpanBBuffer g) (leadingSpanBIndex g)
             (leadingSpanBCount g) conversionLine (leadingSpanBSum g) leading_span_b_window of
        Inl e \<Rightarrow> Inl e
      | Inr (lbBuffer, lbIndex, lbCount, lbSum) \<Rightarrow>
      let leadingSpanB = drop_bit 1 (lbSum + baseline) in
      case updateCircularBufferWithNewValue (laggingSpanBuffer g) (laggingSpanIndex g)
             (laggingSpanCount g) currentPrice lbSum baseline_size of
        Inl e \<Rightarrow> Inl e
      | Inr (lgBuffer, lgIndex, lgCount, lbSum') \<Rightarrow>
      case vector_at lgBuffer lgIndex of
        Inl e \<Rightarrow> Inl e
      | Inr laggingSpan \<Rightarrow>
      case comparison_sample lgBuffer lgIndex of
        Inl e \<Rightarrow> Inl e
      | Inr comparisonSample \<Rightarrow>
      let priceAboveCloud = (min leadingSpanA leadingSpanB < currentPrice);
          priceBelowCloud = (currentPrice < max leadingSpanA leadingSpanB);
          priceAboveConversionAndBase = (conversionLine < currentPrice \<and> baseline < currentPrice);
          priceBelowConversionAndBase = (currentPrice < conversionLine \<and> currentPrice < baseline);
          laggingSpanAbovePrice = (comparisonSample < laggingSpan);
          laggingSpanBelowPrice = (laggingSpan < comparisonSample);
          signal0 = NEUTRAL;
          signal1 = (if (priceAboveCloud \<or> priceAboveConversionAndBase) \<and> laggingSpanAbovePrice
                     then BUY else signal0);
          signal2 = (if (priceBelowCloud \<or> priceBelowConversionAndBase) \<and> laggingSpanBelowPrice
                     then SELL else signal1)
      in Inr (signal2,
              \<lparr>conversionLineBuffer = clBuffer, baselineBuffer = blBuffer,
               leadingSpanBBuffer = lbBuffer, laggingSpanBuffer = lgBuffer,
               conversionLineSum = clSum, baselineSum = blSum, leadingSpanBSum = lbSum',
               conversionLineIndex = clIndex, baselineIndex = blIndex,
               leadingSpanBIndex = lbIndex, laggingSpanIndex = lgIndex,
               conversionLineCount = clCount, baselineCount = blCount,
               leadingSpanBCount = lbCount, laggingSpanCount = lgCount\<rparr>))"

text \<open>A sequence of order-book inputs (asks, ask volumes, bids, bid volumes) given to
  the indicator one after the other; the signals are returned in order.\<close>

type_synonym book = "PriceVolumeArray \<times> PriceVolumeArray \<times> PriceVolumeArray \<times> PriceVolumeArray"

fun Ichimoku_run :: "ichimoku_globals \<Rightarrow> book list \<Rightarrow> ub + (IchimokuSignal list \<times> ichimoku_globals)" where
  "Ichimoku_run g [] = Inr ([], g)"
| "Ichimoku_run g ((askPrices, askVolumes, bidPrices, bidVolumes) # bs) =
     (case Ichimoku g askPrices askVolumes bidPrices bidVolumes of
        Inl e \<Rightarrow> Inl e
      | Inr (signal, g') \<Rightarrow>
          (case Ichimoku_run g' bs of
             Inl e \<Rightarrow> Inl e
           | Inr (signals, g'') \<Rightarrow> Inr (signal # signals, g'')))"


section \<open>The trader's state and the order gateway\<close>

datatype Instrument = FUTURE | ETF

datatype Side = Side_SELL | Side_BUY

datatype Lifespan = FILL_AND_KILL | GOOD_FOR_DAY

text \<open>The calls to the base class that send a message to the exchange; the model
  appends each call to the list \<open>sent\<close> of the state.\<close>

datatype message =
    SendCancelOrder ulong
  | SendInsertOrder ulong Side ulong ulong Lifespan
  | SendHedgeOrder ulong Side ulong ulong

text \<open>The private members of class AutoTrader (autotrader.h). A
  \<^verbatim>\<open>std::unordered_map\<close> is a list of key-value pairs with distinct keys: the handlers
  iterate over two of them.\<close>

type_synonym inventory = "(ulong \<times> ulong) list"

record autotrader =
  mNextMessageId :: ulong
  mAskId :: ulong
  mBidId :: ulong
  mAskPrice :: ulong
  mBidPrice :: ulong
  mPosition :: int
  mHedges :: int
  mAsks :: "ulong set"
  mBids :: "ulong set"
  shortInventory :: inventory
  longInventory :: inventory
  lotSize :: inventory
  PendingCancelAsk :: bool
  PendingCancelBid :: bool
  sent :: "message list"

definition initial_trader :: autotrader where
  "initial_trader =
     \<lparr>mNextMessageId = 1, mAskId = 0, mBidId = 0, mAskPrice = 0, mBidPrice = 0,
      mPosition = 0, mHedges = 0, mAsks = {}, mBids = {},
      shortInventory = [], longInventory = [], lotSize = [],
      PendingCancelAsk = False, PendingCancelBid = False, sent = []\<rparr>"

text \<open>\<^verbatim>\<open>m.emplace(k, v)\<close> inserts only when the key is absent.\<close>

definition emplace :: "inventory \<Rightarrow> ulong \<Rightarrow> ulong \<Rightarrow> inventory" where
  "emplace m k v = (case map_of m k of None \<Rightarrow> m @ [(k, v)] | Some old \<Rightarrow> m)"

text \<open>\<^verbatim>\<open>m[k] = f(m[k])\<close>: \<^verbatim>\<open>operator[]\<close> first inserts the value 0 for an absent key.\<close>

definition subscript_assign :: "inventory \<Rightarrow> ulong \<Rightarrow> (ulong \<Rightarrow> ulong) \<Rightarrow> inventory" where
  "subscript_assign m k f =
     (case map_of m k of
        None \<Rightarrow> m @ [(k, f 0)]
      | Some old \<Rightarrow> map (\<lambda>(k', v'). if k' = k then (k', f v') else (k', v')) m)"

text \<open>
  What the model takes as parameters. \<^verbatim>\<open>MIN_BID_NEAREST_TICK\<close> and
  \<^verbatim>\<open>MAX_ASK_NEAREST_TICK\<close> are computed from \<^verbatim>\<open>MINIMUM_BID\<close> and \<^verbatim>\<open>MAXIMUM_ASK\<close> of
  ready_trader_go/types.h, which is not among the sources. The arithmetic on
  \<^verbatim>\<open>double\<close> is not modelled: \<open>'d\<close> stands for \<^verbatim>\<open>double\<close>,
  \<open>WeightedAverageSpread\<close> for the function of that name, and
  \<open>ulong_plus_double x d\<close> for \<^verbatim>\<open>x + d\<close> converted back to \<^verbatim>\<open>unsigned long\<close>
  (\<open>ulong_minus_double\<close> for \<^verbatim>\<open>x - d\<close>), which is \<open>None\<close> when the \<^verbatim>\<open>double\<close> is
  outside the range of \<^verbatim>\<open>unsigned long\<close> and the conversion undefined.
\<close>

record 'd env =
  MIN_BID_NEAREST_TICK :: ulong
  MAX_ASK_NEAREST_TICK :: ulong
  WeightedAverageSpread ::
    "PriceVolumeArray \<Rightarrow> PriceVolumeArray \<Rightarrow> PriceVolumeArray \<Rightarrow> PriceVolumeArray \<Rightarrow> 'd"
  ulong_plus_double :: "ulong \<Rightarrow> 'd \<Rightarrow> ulong option"
  ulong_minus_double :: "ulong \<Rightarrow> 'd \<Rightarrow> ulong option"

section \<open>OrderFilledMessageHandler\<close>

text \<open>The two conditions on a fill, with the short-circuit of \<^verbatim>\<open>&&\<close>:
  \<^verbatim>\<open>std::abs(newPosition + mHedges) <= POSITION_LIMIT && std::abs(newPosition) <= POSITION_LIMIT\<close>
  for a filled ask, and the same with \<^verbatim>\<open>newPosition - mHedges\<close> for a filled bid.\<close>

definition plain_check :: "int \<Rightarrow> ub + bool" where
  "plain_check newPosition =
     (case long_abs newPosition of Inl e \<Rightarrow> Inl e | Inr a \<Rightarrow> Inr (a \<le> POSITION_LIMIT))"

definition hedged_check :: "ub + int \<Rightarrow> int \<Rightarrow> ub + bool" where
  "hedged_check exposure newPosition =
     (case exposure of
        Inl e \<Rightarrow> Inl e
      | Inr x \<Rightarrow>
          (case long_abs x of
             Inl e \<Rightarrow> Inl e
           | Inr a \<Rightarrow> if a \<le> POSITION_LIMIT then plain_check newPosition else Inr False))"

definition OrderFilledMessageHandler ::
  "'d env \<Rightarrow> autotrader \<Rightarrow> ulong \<Rightarrow> ulong \<Rightarrow> ulong \<Rightarrow> ub + autotrader" where
  "OrderFilledMessageHandler cfg s clientOrderId price volume =
     (if clientOrderId \<in> mAsks s then
        (case long_sub (mPosition s) (to_long volume) of
           Inl e \<Rightarrow> Inl e
         | Inr newPosition \<Rightarrow>
             (case hedged_check (long_add newPosition (mHedges s)) newPosition of
                Inl e \<Rightarrow> Inl e
              | Inr ok \<Rightarrow>
                  Inr (s\<lparr>mPosition := (if ok then newPosition else mPosition s),
                         sent := sent s @ [SendHedgeOrder (mNextMessageId s) Side_BUY
                                             (MAX_ASK_NEAREST_TICK cfg) volume],
                         mNextMessageId := mNextMessageId s + 1,
                         shortInventory := emplace (shortInventory s) clientOrderId price,
                         lotSize := emplace (lotSize s) clientOrderId volume\<rparr>)))
      else if clientOrderId \<in> mBids s then
        (case long_add (mPosition s) (to_long volume) of
           Inl e \<Rightarrow> Inl e
         | Inr newPosition \<Rightarrow>
             (case hedged_check (long_sub newPosition (mHedges s)) newPosition of
                Inl e \<Rightarrow> Inl e
              | Inr ok \<Rightarrow>
                  Inr (s\<lparr>mPosition := (if ok then newPosition else mPosition s),
                         sent := sent s @ [SendHedgeOrder (mNextMessageId s) Side_SELL
                                             (MIN_BID_NEAREST_TICK cfg) volume],
                         mNextMessageId := mNextMessageId s + 1,
                         longInventory := emplace (longInventory s) clientOrderId price,
                         lotSize := emplace (lotSize s) clientOrderId volume\<rparr>)))
      else Inr (s\<lparr>lotSize := emplace (lotSize s) clientOrderId volume\<rparr>))"


section \<open>OrderStatusMessageHandler and ErrorMessageHandler\<close>

text \<open>\<^verbatim>\<open>fees\<close> is a \<^verbatim>\<open>signed long\<close>; added to an \<^verbatim>\<open>unsigned long\<close> it is converted
  first.\<close>

definition OrderStatusMessageHandler ::
  "autotrader \<Rightarrow> ulong \<Rightarrow> ulong \<Rightarrow> ulong \<Rightarrow> int \<Rightarrow> autotrader" where
  "OrderStatusMessageHandler s clientOrderId fillVolume remainingVolume fees =
     (if remainingVolume = 0 then
        let s1 = (if clientOrderId = mAskId s
                    then s\<lparr>mAskId := 0, PendingCancelAsk := False\<rparr>
                  else if clientOrderId = mBidId s
                    then s\<lparr>mBidId := 0, PendingCancelBid := False\<rparr>
                  else s);
            s2 = (if clientOrderId \<in> mAsks s1
                    then s1\<lparr>mAsks := mAsks s1 - {clientOrderId}\<rparr> else s1);
            s3 = (if clientOrderId \<in> mBids s2
                    then s2\<lparr>mBids := mBids s2 - {clientOrderId}\<rparr> else s2)
        in s3
      else
        s\<lparr>longInventory := subscript_assign (longInventory s) clientOrderId (\<lambda>v. v + to_ulong fees),
          shortInventory := subscript_assign (shortInventory s) clientOrderId (\<lambda>v. v - to_ulong fees),
          lotSize := subscript_assign (lotSize s) clientOrderId (\<lambda>v. remainingVolume)\<rparr>)"

definition ErrorMessageHandler :: "autotrader \<Rightarrow> ulong \<Rightarrow> string \<Rightarrow> autotrader" where
  "ErrorMessageHandler s clientOrderId errorMessage =
     (if clientOrderId \<noteq> 0 \<and> (clientOrderId \<in> mAsks s \<or> clientOrderId \<in> mBids s)
        then OrderStatusMessageHandler s clientOrderId 0 0 0
      else s)"


section \<open>OrderBookMessageHandler\<close>

text \<open>The local variables of the handler, in the order the source computes them.\<close>

definition priceAdjustment :: "autotrader \<Rightarrow> ulong" where
  "priceAdjustment s = to_ulong (- (mPosition s sdiv LOT_SIZE) * TICK_SIZE_IN_CENTS)"

definition currentPrice :: "PriceVolumeArray \<Rightarrow> PriceVolumeArray \<Rightarrow> ulong" where
  "currentPrice askPrices bidPrices = drop_bit 1 (level0 bidPrices + level0 askPrices)"

definition round_to_tick :: "ulong \<Rightarrow> ulong" where
  "round_to_tick p = (p div to_ulong TICK_SIZE_IN_CENTS) * to_ulong TICK_SIZE_IN_CENTS"

definition newAskPrice ::
  "'d env \<Rightarrow> autotrader \<Rightarrow> PriceVolumeArray \<Rightarrow> PriceVolumeArray \<Rightarrow> PriceVolumeArray
     \<Rightarrow> PriceVolumeArray \<Rightarrow> ub + ulong" where
  "newAskPrice cfg s askPrices askVolumes bidPrices bidVolumes =
     (if level0 askPrices \<noteq> 0 then
        (case ulong_plus_double cfg (level0 askPrices + priceAdjustment s)
                (WeightedAverageSpread cfg askPrices askVolumes bidPrices bidVolumes) of
           None \<Rightarrow> Inl DoubleOutOfRange
         | Some p \<Rightarrow> Inr (round_to_tick p))
      else Inr (round_to_tick 0))"

definition newBidPrice ::
  "'d env \<Rightarrow> autotrader \<Rightarrow> PriceVolumeArray \<Rightarrow> PriceVolumeArray \<Rightarrow> PriceVolumeArray
     \<Rightarrow> PriceVolumeArray \<Rightarrow> ub + ulong" where
  "newBidPrice cfg s askPrices askVolumes bidPrices bidVolumes =
     (if level0 bidPrices \<noteq> 0 then
        (case ulong_minus_double cfg (level0 bidPrices + priceAdjustment s)
                (WeightedAverageSpread cfg askPrices askVolumes bidPrices bidVolumes) of
           None \<Rightarrow> Inl DoubleOutOfRange
         | Some p \<Rightarrow> Inr (round_to_tick p))
      else Inr (round_to_tick 0))"

definition askQuantity :: "autotrader \<Rightarrow> ub + ulong" where
  "askQuantity s =
     (case long_add POSITION_LIMIT (mPosition s) of
        Inl e \<Rightarrow> Inl e
      | Inr x \<Rightarrow> Inr (min (to_ulong LOT_SIZE) (to_ulong x)))"

definition bidQuantity :: "autotrader \<Rightarrow> ub + ulong" where
  "bidQuantity s =
     (case long_sub POSITION_LIMIT (mPosition s) of
        Inl e \<Rightarrow> Inl e
      | Inr x \<Rightarrow> Inr (min (to_ulong LOT_SIZE) (to_ulong x)))"

text \<open>
  The block that the handler repeats three times for the ask side (lines 243-258,
  299-313 and 328-342 of autotrader.cc) and three times for the bid side (lines 259-274,
  280-294 and 353-367): cancel the tracked order, insert a new one unless a cancel is
  pending, and remember the price.
\<close>

definition requoteAsk :: "autotrader \<Rightarrow> ulong \<Rightarrow> ulong \<Rightarrow> autotrader" where
  "requoteAsk s newAsk askQty =
     (if newAsk \<noteq> 0 \<and> newAsk \<noteq> mAskPrice s then
        let s1 = (if mAskId s \<noteq> 0
                    then s\<lparr>sent := sent s @ [SendCancelOrder (mAskId s)], PendingCancelAsk := True\<rparr>
                  else s);
            s2 = (if \<not> PendingCancelAsk s1 \<and> 0 < askQty
                    then s1\<lparr>mAskId := mNextMessageId s1,
                            mNextMessageId := mNextMessageId s1 + 1,
                            sent := sent s1 @ [SendInsertOrder (mNextMessageId s1) Side_SELL
                                                 newAsk askQty GOOD_FOR_DAY],
                            mAsks := insert (mNextMessageId s1) (mAsks s1)\<rparr>
                  else s1)
        in s2\<lparr>mAskPrice := newAsk\<rparr>
      else s)"

definition requoteBid :: "autotrader \<Rightarrow> ulong \<Rightarrow> ulong \<Rightarrow> autotrader" where
  "requoteBid s newBid bidQty =
     (if newBid \<noteq> 0 \<and> newBid \<noteq> mBidPrice s then
        let s1 = (if mBidId s \<noteq> 0
                    then s\<lparr>sent := sent s @ [SendCancelOrder (mBidId s)], PendingCancelBid := True\<rparr>
                  else s);
            s2 = (if \<not> PendingCancelBid s1 \<and> 0 < bidQty
                    then s1\<lparr>mBidId := mNextMessageId s1,
                            mNextMessageId := mNextMessageId s1 + 1,
                            sent := sent s1 @ [SendInsertOrder (mNextMessageId s1) Side_BUY
                                                 newBid bidQty GOOD_FOR_DAY],
                            mBids := insert (mNextMessageId s1) (mBids s1)\<rparr>
                  else s1)
        in s2\<lparr>mBidPrice := newBid\<rparr>
      else s)"

text \<open>Lines 277-314: what the handler does with the signal that Ichimoku returned. The
  guard of the BUY branch reads \<^verbatim>\<open>leadingSpanBBuffer.size()\<close>, the length of the
  vector.\<close>

definition actOnSignal ::
  "ichimoku_globals \<Rightarrow> IchimokuSignal \<Rightarrow> autotrader \<Rightarrow> ulong \<Rightarrow> ulong \<Rightarrow> ulong \<Rightarrow> ulong
     \<Rightarrow> autotrader" where
  "actOnSignal g signal s newAsk askQty newBid bidQty =
     (if 52 \<le> length (leadingSpanBBuffer g) \<and> signal = BUY then requoteBid s newBid bidQty
      else if signal = SELL then requoteAsk s newAsk askQty
      else s)"

text \<open>Lines 317-370: profit taking outside the unload range, one loop over each
  inventory.\<close>

definition unloadInventory ::
  "autotrader \<Rightarrow> ulong \<Rightarrow> ulong \<Rightarrow> ulong \<Rightarrow> ulong \<Rightarrow> ulong \<Rightarrow> autotrader" where
  "unloadInventory s midPrice newAsk askQty newBid bidQty =
     (if UNLOAD \<le> mPosition s \<or> mPosition s \<le> - UNLOAD then
        let s1 = fold (\<lambda>(longId, longCostBasis) st.
                         if newAsk \<noteq> 0 \<and> newAsk \<noteq> mAskPrice st
                           then (if longCostBasis < midPrice
                                   then requoteAsk st newAsk askQty else st)
                         else st)
                   (longInventory s) s;
            s2 = fold (\<lambda>(shortId, shortCostBasis) st.
                         if midPrice < shortCostBasis
                           then requoteBid st newBid bidQty else st)
                   (shortInventory s1) s1
        in s2
      else s)"

text \<open>The handler from the call of Ichimoku on (lines 276-370), for the signal it
  got.\<close>

definition afterIchimoku ::
  "ichimoku_globals \<Rightarrow> IchimokuSignal \<Rightarrow> autotrader \<Rightarrow> ulong \<Rightarrow> ulong \<Rightarrow> ulong \<Rightarrow> ulong \<Rightarrow> ulong
     \<Rightarrow> autotrader" where
  "afterIchimoku g signal s midPrice newAsk askQty newBid bidQty =
     unloadInventory (actOnSignal g signal s newAsk askQty newBid bidQty)
       midPrice newAsk askQty newBid bidQty"

definition OrderBookMessageHandler ::
  "'d env \<Rightarrow> autotrader \<times> ichimoku_globals \<Rightarrow> Instrument \<Rightarrow> ulong \<Rightarrow> PriceVolumeArray
     \<Rightarrow> PriceVolumeArray \<Rightarrow> PriceVolumeArray \<Rightarrow> PriceVolumeArray
     \<Rightarrow> ub + (autotrader \<times> ichimoku_globals)" where
  "OrderBookMessageHandler cfg w instrument sequenceNumber askPrices askVolumes bidPrices bidVolumes =
     (case w of (s, g) \<Rightarrow>
      case newAskPrice cfg s askPrices askVolumes bidPrices bidVolumes of
        Inl e \<Rightarrow> Inl e
      | Inr newAsk \<Rightarrow>
      case newBidPrice cfg s askPrices askVolumes bidPrices bidVolumes of
        Inl e \<Rightarrow> Inl e
      | Inr newBid \<Rightarrow>
      case askQuantity s of
        Inl e \<Rightarrow> Inl e
      | Inr askQty \<Rightarrow>
      case bidQuantity s of
        Inl e \<Rightarrow> Inl e
      | Inr bidQty \<Rightarrow>
      if instrument = FUTURE then
        (let s1 = requoteAsk s newAsk askQty;
             s2 = requoteBid s1 newBid bidQty
         in case Ichimoku g askPrices askVolumes bidPrices bidVolumes of
              Inl e \<Rightarrow> Inl e
            | Inr (signal, g') \<Rightarrow>
                Inr (afterIchimoku g' signal s2 (currentPrice askPrices bidPrices)
                       newAsk askQty newBid bidQty, g'))
      else Inr (s, g))"

section \<open>All the handlers\<close>

datatype event =
    OrderBook Instrument ulong PriceVolumeArray PriceVolumeArray PriceVolumeArray PriceVolumeArray
  | TradeTicks Instrument ulong PriceVolumeArray PriceVolumeArray PriceVolumeArray PriceVolumeArray
  | OrderFilled ulong ulong ulong
  | OrderStatus ulong ulong ulong int
  | HedgeFilled ulong ulong ulong
  | Error ulong string
  | Disconnect

text \<open>HedgeFilledMessageHandler, TradeTicksMessageHandler and DisconnectHandler only
  write to the log.\<close>

fun handle :: "'d env \<Rightarrow> autotrader \<times> ichimoku_globals \<Rightarrow> event
     \<Rightarrow> ub + (autotrader \<times> ichimoku_globals)" where
  "handle cfg w (OrderBook instrument sequenceNumber askPrices askVolumes bidPrices bidVolumes) =
     OrderBookMessageHandler cfg w instrument sequenceNumber askPrices askVolumes bidPrices bidVolumes"
| "handle cfg w (TradeTicks instrument sequenceNumber askPrices askVolumes bidPrices bidVolumes) =
     Inr w"
| "handle cfg (s, g) (OrderFilled clientOrderId price volume) =
     (case OrderFilledMessageHandler cfg s clientOrderId price volume of
        Inl e \<Rightarrow> Inl e
      | Inr s' \<Rightarrow> Inr (s', g))"
| "handle cfg (s, g) (OrderStatus clientOrderId fillVolume remainingVolume fees) =
     Inr (OrderStatusMessageHandler s clientOrderId fillVolume remainingVolume fees, g)"
| "handle cfg w (HedgeFilled clientOrderId price volume) = Inr w"
| "handle cfg (s, g) (Error clientOrderId errorMessage) =
     Inr (ErrorMessageHandler s clientOrderId errorMessage, g)"
| "handle cfg w Disconnect = Inr w"

fun run :: "'d env \<Rightarrow> autotrader \<times> ichimoku_globals \<Rightarrow> event list
     \<Rightarrow> ub + (autotrader \<times> ichimoku_globals)" where
  "run cfg w [] = Inr w"
| "run cfg w (ev # evs) =
     (case handle cfg w ev of Inl e \<Rightarrow> Inl e | Inr w' \<Rightarrow> run cfg w' evs)"


section \<open>An instance of the parameters for examples\<close>

text \<open>
  The examples below need values for the parameters. This instance computes
  WeightedAverageSpread with the loop of the source on exact rationals instead of
  \<^verbatim>\<open>double\<close>; the two agree as long as every intermediate value is an integer below
  \<open>2 ^ 53\<close>, as in the examples. The hedge prices are those of \<^verbatim>\<open>MINIMUM_BID = 1\<close>
  and \<^verbatim>\<open>MAXIMUM_ASK = 2147483647\<close>.
\<close>

definition spread_level :: "ulong \<Rightarrow> ulong \<Rightarrow> ulong \<Rightarrow> ulong \<Rightarrow> rat \<times> rat \<Rightarrow> rat \<times> rat" where
  "spread_level askPrice askVolume bidPrice bidVolume acc =
     (case acc of (totalSpreadVolume, weightedSpreadSum) \<Rightarrow>
        if askPrice \<noteq> 0 \<and> bidPrice \<noteq> 0 then
          (let spread = of_nat (unat (drop_bit 1 (askPrice - bidPrice)));
               spreadVolume = of_nat (unat (min askVolume bidVolume))
           in (totalSpreadVolume + spreadVolume, weightedSpreadSum + spread * spreadVolume))
        else acc)"

definition WeightedAverageSpread_exact ::
  "PriceVolumeArray \<Rightarrow> PriceVolumeArray \<Rightarrow> PriceVolumeArray \<Rightarrow> PriceVolumeArray \<Rightarrow> rat" where
  "WeightedAverageSpread_exact askPrices askVolumes bidPrices bidVolumes =
     (case spread_level (level4 askPrices) (level4 askVolumes) (level4 bidPrices) (level4 bidVolumes)
            (spread_level (level3 askPrices) (level3 askVolumes) (level3 bidPrices) (level3 bidVolumes)
            (spread_level (level2 askPrices) (level2 askVolumes) (level2 bidPrices) (level2 bidVolumes)
            (spread_level (level1 askPrices) (level1 askVolumes) (level1 bidPrices) (level1 bidVolumes)
            (spread_level (level0 askPrices) (level0 askVolumes) (level0 bidPrices) (level0 bidVolumes)
               (0, 0))))) of
        (totalSpreadVolume, weightedSpreadSum) \<Rightarrow>
          if 0 < totalSpreadVolume then weightedSpreadSum / totalSpreadVolume else 0)"

definition rat_to_ulong :: "rat \<Rightarrow> ulong option" where
  "rat_to_ulong r =
     (if - 1 < r \<and> r < 18446744073709551616 then Some (word_of_int (max 0 \<lfloor>r\<rfloor>)) else None)"

definition exact_env :: "rat env" where
  "exact_env =
     \<lparr>MIN_BID_NEAREST_TICK = 100,
      MAX_ASK_NEAREST_TICK = 2147483600,
      WeightedAverageSpread = WeightedAverageSpread_exact,
      ulong_plus_double = (\<lambda>x d. rat_to_ulong (of_nat (unat x) + d)),
      ulong_minus_double = (\<lambda>x d. rat_to_ulong (of_nat (unat x) - d))\<rparr>"

text \<open>An order book with one level a side.\<close>

definition one_level :: "ulong \<Rightarrow> PriceVolumeArray" where
  "one_level x = PriceVolumeArray x 0 0 0 0"


section \<open>The fill handler on the 64-bit target\<close>

text \<open>
  Where the C++ leaves a signed operation undefined, the instructions of the 64-bit
  target compute in two's complement: a sum or a difference wraps around, and
  \<^verbatim>\<open>std::abs\<close> of the least \<^verbatim>\<open>long\<close> is the least \<^verbatim>\<open>long\<close> again.
  \<open>OrderFilledMessageHandler_as_built\<close> is OrderFilledMessageHandler with this
  arithmetic in place of the range checks; it agrees with the handler above wherever that
  one returns a state.
\<close>

definition wrap_long :: "int \<Rightarrow> int" where
  "wrap_long x = sint (word_of_int x :: 64 word)"

definition abs_as_built :: "int \<Rightarrow> int" where
  "abs_as_built x = wrap_long \<bar>x\<bar>"

definition OrderFilledMessageHandler_as_built ::
  "'d env \<Rightarrow> autotrader \<Rightarrow> ulong \<Rightarrow> ulong \<Rightarrow> ulong \<Rightarrow> autotrader" where
  "OrderFilledMessageHandler_as_built cfg s clientOrderId price volume =
     (if clientOrderId \<in> mAsks s then
        (let newPosition = wrap_long (mPosition s - to_long volume);
             ok = (abs_as_built (wrap_long (newPosition + mHedges s)) \<le> POSITION_LIMIT
                   \<and> abs_as_built newPosition \<le> POSITION_LIMIT)
         in s\<lparr>mPosition := (if ok then newPosition else mPosition s),
                sent := sent s @ [SendHedgeOrder (mNextMessageId s) Side_BUY
                                    (MAX_ASK_NEAREST_TICK cfg) volume],
                mNextMessageId := mNextMessageId s + 1,
                shortInventory := emplace (shortInventory s) clientOrderId price,
                lotSize := emplace (lotSize s) clientOrderId volume\<rparr>)
      else if clientOrderId \<in> mBids s then
        (let newPosition = wrap_long (mPosition s + to_long volume);
             ok = (abs_as_built (wrap_long (newPosition - mHedges s)) \<le> POSITION_LIMIT
                   \<and> abs_as_built newPosition \<le> POSITION_LIMIT)
         in s\<lparr>mPosition := (if ok then newPosition else mPosition s),
                sent := sent s @ [SendHedgeOrder (mNextMessageId s) Side_SELL
                                    (MIN_BID_NEAREST_TICK cfg) volume],
                mNextMessageId := mNextMessageId s + 1,
                longInventory := emplace (longInventory s) clientOrderId price,
                lotSize := emplace (lotSize s) clientOrderId volume\<rparr>)
      else s\<lparr>lotSize := emplace (lotSize s) clientOrderId volume\<rparr>)"


section \<open>Events within the range of the arithmetic\<close>

text \<open>
  An event is admissible when it is a fill of at most \<open>2 ^ 61\<close> lots (the volume read as
  a \<^verbatim>\<open>long\<close>), or an order book whose target prices, computed without price adjustment,
  are within the range of \<^verbatim>\<open>unsigned long\<close>, or any other event.
\<close>

definition defined :: "ub + 'a \<Rightarrow> bool" where
  "defined r = (case r of Inl e \<Rightarrow> False | Inr x \<Rightarrow> True)"

fun admissible :: "'d env \<Rightarrow> event \<Rightarrow> bool" where
  "admissible cfg (OrderFilled clientOrderId price volume) = (\<bar>to_long volume\<bar> \<le> 2 ^ 61)"
| "admissible cfg (OrderBook instrument sequenceNumber askPrices askVolumes bidPrices bidVolumes) =
     (defined (newAskPrice cfg initial_trader askPrices askVolumes bidPrices bidVolumes)
      \<and> defined (newBidPrice cfg initial_trader askPrices askVolumes bidPrices bidVolumes))"
| "admissible cfg (TradeTicks instrument sequenceNumber askPrices askVolumes bidPrices bidVolumes) = True"
| "admissible cfg (OrderStatus clientOrderId fillVolume remainingVolume fees) = True"
| "admissible cfg (HedgeFilled clientOrderId price volume) = True"
| "admissible cfg (Error clientOrderId errorMessage) = True"
| "admissible cfg Disconnect = True"

section \<open>Well-formed indicator state\<close>

text \<open>Every buffer has the length it was created with, every cursor points into its
  buffer and every count is between 0 and the window's period.\<close>

definition globals_wf :: "ichimoku_globals \<Rightarrow> bool" where
  "globals_wf g \<longleftrightarrow>
     length (conversionLineBuffer g) = nat conversion_line_size \<and>
     length (baselineBuffer g) = nat baseline_size \<and>
     length (leadingSpanBBuffer g) = nat leading_span_b_window \<and>
     length (laggingSpanBuffer g) = nat baseline_size \<and>
     0 \<le> conversionLineIndex g \<and> conversionLineIndex g < conversion_line_size \<and>
     0 \<le> baselineIndex g \<and> baselineIndex g < baseline_size \<and>
     0 \<le> leadingSpanBIndex g \<and> leadingSpanBIndex g < leading_span_b_window \<and>
     0 \<le> laggingSpanIndex g \<and> laggingSpanIndex g < baseline_size \<and>
     0 \<le> conversionLineCount g \<and> conversionLineCount g \<le> conversion_line_size \<and>
     0 \<le> baselineCount g \<and> baselineCount g \<le> baseline_size \<and>
     0 \<le> leadingSpanBCount g \<and> leadingSpanBCount g \<le> leading_span_b_window \<and>
     0 \<le> laggingSpanCount g \<and> laggingSpanCount g \<le> baseline_size"

section \<open>Reading the messages sent\<close>

text \<open>Whether a message is the insertion of an order on the given side.\<close>

fun is_insert_on :: "Side \<Rightarrow> message \<Rightarrow> bool" where
  "is_insert_on side (SendInsertOrder clientOrderId side' price volume lifespan) = (side' = side)"
| "is_insert_on side (SendCancelOrder clientOrderId) = False"
| "is_insert_on side (SendHedgeOrder clientOrderId side' price volume) = False"

section \<open>An example state\<close>

text \<open>The trader after its first order book, best ask 1002 and best bid 998: it has
  inserted the ask 1 at 1000 and the bid 2 at 900, 100 lots each.\<close>

definition quoting_trader :: autotrader where
  "quoting_trader =
     initial_trader\<lparr>mNextMessageId := 3, mAskId := 1, mBidId := 2, mAskPrice := 1000,
       mBidPrice := 900, mAsks := {1}, mBids := {2},
       sent := [SendInsertOrder 1 Side_SELL 1000 100 GOOD_FOR_DAY,
                SendInsertOrder 2 Side_BUY 900 100 GOOD_FOR_DAY]\<rparr>"

section \<open>The sliding window keeps the sum of the last values\<close>

lemma smod_nat: "(int a + 1) smod int N = int (Suc a mod N)"
  by (simp add: signed_modulo_int_def sgn_if zmod_int add.commute)

lemma sum_take_rev_snoc_small:
  fixes ps :: "ulong list"
  assumes "length ps < N"
  shows "sum_list (take N (rev (ps @ [v]))) = sum_list (take N (rev ps)) + v"
  using assms by (cases N) simp_all

lemma sum_take_rev_snoc_full:
  fixes ps :: "ulong list"
  assumes "0 < N" "N \<le> length ps"
  shows "sum_list (take N (rev (ps @ [v]))) = sum_list (take N (rev ps)) - ps ! (length ps - N) + v"
proof -
  obtain k where N: "N = Suc k" using assms(1) by (cases N) auto
  have k: "k < length (rev ps)" using assms(2) N by simp
  have "take (Suc k) (rev ps) = take k (rev ps) @ [rev ps ! k]"
    using k by (rule take_Suc_conv_app_nth)
  moreover have "rev ps ! k = ps ! (length ps - N)"
    using k N by (simp add: rev_nth)
  ultimately show ?thesis using N by simp
qed

lemma update_step:
  fixes ps :: "ulong list"
  assumes N: "0 < N" "int N \<le> INT_MAX" "N \<le> length buffer"
    and inv: "\<forall>m. m < length ps \<and> length ps \<le> m + N \<longrightarrow> buffer ! (m mod N) = ps ! m"
  shows "updateCircularBufferWithNewValue buffer (int (length ps mod N)) (int (min (length ps) N)) v
           (sum_list (take N (rev ps))) (int N)
         = Inr (buffer[length ps mod N := v], int (Suc (length ps) mod N),
                int (min (Suc (length ps)) N), sum_list (take N (rev (ps @ [v]))))"
proof -
  let ?n = "length ps"
  have idx: "?n mod N < N" using N(1) by simp
  have a: "\<not> (int (?n mod N) < 0 \<or> int (length buffer) \<le> int (?n mod N))"
    using idx N(3) by linarith
  have b: "\<not> INT_MAX < int (?n mod N) + 1" using idx N(2) by linarith
  have c: "int N \<noteq> 0" using N(1) by simp
  show ?thesis
  proof (cases "?n < N")
    case True
    then show ?thesis
      using a b c
      by (simp add: updateCircularBufferWithNewValue_def smod_nat sum_take_rev_snoc_small
               del: rev_append take_append)
  next
    case False
    then have ge: "N \<le> ?n" by simp
    have "?n - N < ?n \<and> ?n \<le> (?n - N) + N" using ge N(1) by simp
    then have "buffer ! ((?n - N) mod N) = ps ! (?n - N)" using inv by blast
    moreover have "(?n - N) mod N = ?n mod N" using ge by (simp add: le_mod_geq)
    ultimately have old: "buffer ! (?n mod N) = ps ! (?n - N)" by simp
    show ?thesis
      using a b c False ge old N(1)
      by (simp add: updateCircularBufferWithNewValue_def smod_nat sum_take_rev_snoc_full
               mod_Suc_eq del: rev_append take_append)
  qed
qed


lemma buffer_step:
  fixes ps :: "ulong list"
  assumes N: "0 < N" "N \<le> length buffer"
    and inv: "\<forall>m. m < length ps \<and> length ps \<le> m + N \<longrightarrow> buffer ! (m mod N) = ps ! m"
  shows "\<forall>m. m < length (ps @ [v]) \<and> length (ps @ [v]) \<le> m + N
           \<longrightarrow> (buffer[length ps mod N := v]) ! (m mod N) = (ps @ [v]) ! m"
proof (intro allI impI)
  fix m
  assume m: "m < length (ps @ [v]) \<and> length (ps @ [v]) \<le> m + N"
  let ?n = "length ps"
  have idx: "?n mod N < length buffer" using N by (meson less_le_trans mod_less_divisor)
  show "(buffer[?n mod N := v]) ! (m mod N) = (ps @ [v]) ! m"
  proof (cases "m = ?n")
    case True
    then show ?thesis using idx by simp
  next
    case False
    then have lt: "m < ?n" and near: "?n \<le> m + N" and close: "?n - m < N" using m by auto
    have "m mod N \<noteq> ?n mod N"
    proof
      assume eq: "m mod N = ?n mod N"
      have "N dvd ?n - m"
        using eq lt mod_eq_dvd_iff_nat [of m ?n N] by (simp add: less_imp_le_nat eq_commute)
      then have "(?n - m) mod N = 0" by simp
      then have "?n - m = 0" using close by simp
      then show False using lt by simp
    qed
    then have "(buffer[?n mod N := v]) ! (m mod N) = buffer ! (m mod N)" by simp
    also have "\<dots> = ps ! m" using inv lt near by simp
    finally show ?thesis using lt by (simp add: nth_append)
  qed
qed

lemma push_all_inv:
  fixes ps :: "ulong list"
  assumes N: "0 < N" "int N \<le> INT_MAX"
  shows "N \<le> length buffer \<Longrightarrow>
         (\<forall>m. m < length ps \<and> length ps \<le> m + N \<longrightarrow> buffer ! (m mod N) = ps ! m) \<Longrightarrow>
         \<exists>buffer'. push_all (int N) (buffer, int (length ps mod N), int (min (length ps) N),
                                     sum_list (take N (rev ps))) vs
                    = Inr (buffer', int (length (ps @ vs) mod N), int (min (length (ps @ vs)) N),
                           sum_list (take N (rev (ps @ vs))))
                  \<and> length buffer' = length buffer"
proof (induction vs arbitrary: ps buffer)
  case Nil
  then show ?case by simp
next
  case (Cons v vs)
  have step: "updateCircularBufferWithNewValue buffer (int (length ps mod N)) (int (min (length ps) N)) v
           (sum_list (take N (rev ps))) (int N)
         = Inr (buffer[length ps mod N := v], int (length (ps @ [v]) mod N),
                int (min (length (ps @ [v])) N), sum_list (take N (rev (ps @ [v]))))"
    using update_step [OF N Cons.prems(1) Cons.prems(2), of v] by simp
  have len: "N \<le> length (buffer[length ps mod N := v])" using Cons.prems(1) by simp
  have inv': "\<forall>m. m < length (ps @ [v]) \<and> length (ps @ [v]) \<le> m + N
           \<longrightarrow> (buffer[length ps mod N := v]) ! (m mod N) = (ps @ [v]) ! m"
    by (rule buffer_step [OF N(1) Cons.prems(1) Cons.prems(2)])
  from Cons.IH [OF len inv'] obtain buffer' where
    "push_all (int N) (buffer[length ps mod N := v], int (length (ps @ [v]) mod N),
        int (min (length (ps @ [v])) N), sum_list (take N (rev (ps @ [v])))) vs
      = Inr (buffer', int (length ((ps @ [v]) @ vs) mod N), int (min (length ((ps @ [v]) @ vs)) N),
             sum_list (take N (rev ((ps @ [v]) @ vs))))"
    and "length buffer' = length (buffer[length ps mod N := v])"
    by blast
  then show ?case using step by (simp del: rev_append take_append)
qed

lemma unat_sum_list:
  fixes xs :: "ulong list"
  shows "sum_list (map unat xs) < 2 ^ 64 \<Longrightarrow> unat (sum_list xs) = sum_list (map unat xs)"
proof (induction xs)
  case Nil
  then show ?case by simp
next
  case (Cons x xs)
  then have "unat (sum_list xs) = sum_list (map unat xs)" by simp
  moreover have "unat x + sum_list (map unat xs) < 2 ^ LENGTH(64)" using Cons.prems by simp
  ultimately show ?case by (simp add: unat_add_lem [THEN iffD1])
qed

text \<open>
  C4. For a window of capacity \<open>maxSize\<close> (positive, and no longer than its buffer),
  starting empty, every sequence of pushes succeeds; afterwards the sum is the sum of the
  last \<open>min (number of pushes) maxSize\<close> values pushed, in the arithmetic of
  \<^verbatim>\<open>unsigned long\<close>, which is exact whenever the sum of those values is below
  \<open>2 ^ 64\<close>, and the count is that minimum, so it never exceeds the capacity.
  Scenario A: with capacity 3 the pushes 10, 20, 30, 40 give the sums 10, 30, 60, 90, and
  the fourth push overwrites the oldest slot: the buffer holds 40, 20, 30 with sum 90 and
  count 3.
\<close>

theorem sliding_window_sum:
  "(0 < maxSize \<and> maxSize \<le> INT_MAX \<and> nat maxSize \<le> length buffer \<longrightarrow>
      (\<exists>buffer' index' count' wsum.
         push_all maxSize (buffer, 0, 0, 0) pushed = Inr (buffer', index', count', wsum)
         \<and> wsum = sum_list (take (min (length pushed) (nat maxSize)) (rev pushed))
         \<and> (sum_list (map unat (take (min (length pushed) (nat maxSize)) (rev pushed))) < 2 ^ 64
              \<longrightarrow> unat wsum
                  = sum_list (map unat (take (min (length pushed) (nat maxSize)) (rev pushed))))
         \<and> count' = int (min (length pushed) (nat maxSize))
         \<and> count' \<le> maxSize))
   \<and> push_all 3 ([0, 0, 0], 0, 0, 0) [10] = Inr ([10, 0, 0], 1, 1, 10)
   \<and> push_all 3 ([0, 0, 0], 0, 0, 0) [10, 20] = Inr ([10, 20, 0], 2, 2, 30)
   \<and> push_all 3 ([0, 0, 0], 0, 0, 0) [10, 20, 30] = Inr ([10, 20, 30], 0, 3, 60)
   \<and> push_all 3 ([0, 0, 0], 0, 0, 0) [10, 20, 30, 40] = Inr ([40, 20, 30], 1, 3, 90)"
proof (intro conjI impI)
  assume a: "0 < maxSize \<and> maxSize \<le> INT_MAX \<and> nat maxSize \<le> length buffer"
  define N where "N = nat maxSize"
  have N: "0 < N" "int N \<le> INT_MAX" "N \<le> length buffer" "int N = maxSize"
    using a by (simp_all add: N_def)
  have empty: "\<forall>m. m < length ([] :: ulong list) \<and> length ([] :: ulong list) \<le> m + N
                 \<longrightarrow> buffer ! (m mod N) = [] ! m"
    by simp
  from push_all_inv [OF N(1) N(2) N(3) empty, of pushed] obtain buffer' where
    run: "push_all (int N) (buffer, 0, 0, 0) pushed
       = Inr (buffer', int (length pushed mod N), int (min (length pushed) N),
              sum_list (take N (rev pushed)))"
    by auto
  have last: "take N (rev pushed) = take (min (length pushed) N) (rev pushed)"
    by (simp add: min_def)
  have count: "int (min (length pushed) N) \<le> maxSize" using N(4) by (simp add: min_def)
  have exact: "sum_list (map unat (take (min (length pushed) N) (rev pushed))) < 2 ^ 64
              \<longrightarrow> unat (sum_list (take (min (length pushed) N) (rev pushed)))
                  = sum_list (map unat (take (min (length pushed) N) (rev pushed)))"
    using unat_sum_list by blast
  show "\<exists>buffer' index' count' wsum.
         push_all maxSize (buffer, 0, 0, 0) pushed = Inr (buffer', index', count', wsum)
         \<and> wsum = sum_list (take (min (length pushed) (nat maxSize)) (rev pushed))
         \<and> (sum_list (map unat (take (min (length pushed) (nat maxSize)) (rev pushed))) < 2 ^ 64
              \<longrightarrow> unat wsum
                  = sum_list (map unat (take (min (length pushed) (nat maxSize)) (rev pushed))))
         \<and> count' = int (min (length pushed) (nat maxSize))
         \<and> count' \<le> maxSize"
    using run last count exact N(4) unfolding N_def by (intro exI conjI) auto
qed (simp_all add: updateCircularBufferWithNewValue_def INT_MAX_def signed_modulo_int_def)

theorem sliding_window_sum_witness:
  "(0 :: int) < 2 \<and> (2 :: int) \<le> INT_MAX \<and> nat 2 \<le> length [0, 0 :: ulong]
   \<and> sum_list (map unat [7, 6 :: ulong]) < 2 ^ 64
   \<and> (\<exists>buffer' index' wsum. push_all 2 ([0, 0], 0, 0, 0) [5, 6, 7] = Inr (buffer', index', 2, wsum)
         \<and> wsum = 13 \<and> unat wsum = 13)"
  using sliding_window_sum [of 2 "[0, 0]" "[5, 6, 7]"] by (simp add: INT_MAX_def)

section \<open>The signal of the indicator\<close>

lemma update_wf:
  assumes "0 \<le> index" "index < maxSize" "0 \<le> count" "count \<le> maxSize" "maxSize \<le> INT_MAX"
    and "length buffer = nat maxSize"
  shows "\<exists>buffer' index' count' wsum'.
           updateCircularBufferWithNewValue buffer index count v wsum maxSize
             = Inr (buffer', index', count', wsum')
           \<and> length buffer' = length buffer \<and> 0 \<le> index' \<and> index' < maxSize
           \<and> 1 \<le> count' \<and> count' \<le> maxSize \<and> count \<le> count'"
proof -
  have pos: "0 < maxSize" using assms(1,2) by linarith
  have i1: "0 \<le> (index + 1) smod maxSize" "(index + 1) smod maxSize < maxSize"
    using assms(1) pos by (simp_all add: signed_modulo_int_def sgn_if)
  have a: "\<not> (index < 0 \<or> int (length buffer) \<le> index)" using assms by simp
  have b: "\<not> INT_MAX < index + 1" using assms by linarith
  show ?thesis
    using a b pos i1 assms(3,4)
    by (auto simp: updateCircularBufferWithNewValue_def)
qed

lemma ulong_div_count:
  assumes "1 \<le> c" "c \<le> 52"
  shows "ulong_div a c = Inr (a div to_ulong c)"
proof -
  have "uint (word_of_int c :: ulong) = c"
    using assms by (simp add: uint_word_of_int take_bit_int_eq_self)
  then have "(word_of_int c :: ulong) \<noteq> 0" using assms by auto
  then show ?thesis by (simp add: ulong_div_def to_ulong_def)
qed

lemma comparison_sample_self:
  assumes "0 \<le> i" "i < baseline_size" "length buffer = nat baseline_size"
  shows "comparison_sample buffer i = Inr (buffer ! nat i)"
proof -
  have i: "i < 26" using assms(2) by (simp add: baseline_size_def)
  have len: "length buffer = 26" using assms(3) by (simp add: baseline_size_def)
  have "(word_of_int (i - 26) + 26 :: ulong) = word_of_int i" by simp
  moreover have "unat ((word_of_int i :: ulong) mod 26) = nat i"
  proof -
    have "uint (word_of_int i :: ulong) = i"
      using assms(1) i by (simp add: uint_word_of_int take_bit_int_eq_self)
    then have "uint ((word_of_int i :: ulong) mod 26) = i"
      using assms(1) i by (simp add: uint_mod)
    then show ?thesis by (simp add: unat_eq_nat_uint)
  qed
  ultimately show ?thesis
    using assms(1) i len
    by (simp add: comparison_sample_def to_ulong_def baseline_size_def Let_def)
qed


lemma Ichimoku_neutral:
  assumes wf: "globals_wf g"
  shows "\<exists>g'. Ichimoku g askPrices askVolumes bidPrices bidVolumes = Inr (NEUTRAL, g')
              \<and> globals_wf g'"
proof -
  let ?p = "drop_bit 1 (level0 bidPrices + level0 askPrices)"
  have sizes: "conversion_line_size \<le> INT_MAX" "baseline_size \<le> INT_MAX"
      "leading_span_b_window \<le> INT_MAX"
    by (simp_all add: conversion_line_size_def baseline_size_def leading_span_b_window_def
          INT_MAX_def)
  obtain b1 i1 c1 s1 where
    u1: "updateCircularBufferWithNewValue (conversionLineBuffer g) (conversionLineIndex g)
           (conversionLineCount g) ?p (conversionLineSum g) conversion_line_size
         = Inr (b1, i1, c1, s1)"
    and p1: "length b1 = length (conversionLineBuffer g)" "0 \<le> i1" "i1 < conversion_line_size"
      "1 \<le> c1" "c1 \<le> conversion_line_size"
    using update_wf [of "conversionLineIndex g" conversion_line_size "conversionLineCount g"
        "conversionLineBuffer g" ?p "conversionLineSum g"] wf sizes
    unfolding globals_wf_def by blast
  have d1: "ulong_div s1 c1 = Inr (s1 div to_ulong c1)"
    using p1 by (intro ulong_div_count) (simp_all add: conversion_line_size_def)
  let ?cl = "s1 div to_ulong c1"
  obtain b2 i2 c2 s2 where
    u2: "updateCircularBufferWithNewValue (baselineBuffer g) (baselineIndex g)
           (baselineCount g) ?cl (baselineSum g) baseline_size
         = Inr (b2, i2, c2, s2)"
    and p2: "length b2 = length (baselineBuffer g)" "0 \<le> i2" "i2 < baseline_size"
      "1 \<le> c2" "c2 \<le> baseline_size"
    using update_wf [of "baselineIndex g" baseline_size "baselineCount g"
        "baselineBuffer g" ?cl "baselineSum g"] wf sizes
    unfolding globals_wf_def by blast
  have d2: "ulong_div s2 c2 = Inr (s2 div to_ulong c2)"
    using p2 by (intro ulong_div_count) (simp_all add: baseline_size_def)
  obtain b3 i3 c3 s3 where
    u3: "updateCircularBufferWithNewValue (leadingSpanBBuffer g) (leadingSpanBIndex g)
           (leadingSpanBCount g) ?cl (leadingSpanBSum g) leading_span_b_window
         = Inr (b3, i3, c3, s3)"
    and p3: "length b3 = length (leadingSpanBBuffer g)" "0 \<le> i3" "i3 < leading_span_b_window"
      "1 \<le> c3" "c3 \<le> leading_span_b_window"
    using update_wf [of "leadingSpanBIndex g" leading_span_b_window "leadingSpanBCount g"
        "leadingSpanBBuffer g" ?cl "leadingSpanBSum g"] wf sizes
    unfolding globals_wf_def by blast
  obtain b4 i4 c4 s4 where
    u4: "updateCircularBufferWithNewValue (laggingSpanBuffer g) (laggingSpanIndex g)
           (laggingSpanCount g) ?p s3 baseline_size
         = Inr (b4, i4, c4, s4)"
    and p4: "length b4 = length (laggingSpanBuffer g)" "0 \<le> i4" "i4 < baseline_size"
      "1 \<le> c4" "c4 \<le> baseline_size"
    using update_wf [of "laggingSpanIndex g" baseline_size "laggingSpanCount g"
        "laggingSpanBuffer g" ?p s3] wf sizes
    unfolding globals_wf_def by blast
  have len4: "length b4 = nat baseline_size" using p4(1) wf by (simp add: globals_wf_def)
  have v4: "vector_at b4 i4 = Inr (b4 ! nat i4)"
    using p4(2,3) len4 by (simp add: vector_at_def)
  have cmp: "comparison_sample b4 i4 = Inr (b4 ! nat i4)"
    using p4(2,3) len4 by (rule comparison_sample_self)
  have "Ichimoku g askPrices askVolumes bidPrices bidVolumes =
        Inr (NEUTRAL,
              \<lparr>conversionLineBuffer = b1, baselineBuffer = b2,
               leadingSpanBBuffer = b3, laggingSpanBuffer = b4,
               conversionLineSum = s1, baselineSum = s2, leadingSpanBSum = s4,
               conversionLineIndex = i1, baselineIndex = i2,
               leadingSpanBIndex = i3, laggingSpanIndex = i4,
               conversionLineCount = c1, baselineCount = c2,
               leadingSpanBCount = c3, laggingSpanCount = c4\<rparr>)"
    using u1 d1 u2 d2 u3 u4 v4 cmp unfolding Ichimoku_def by (simp add: Let_def)
  moreover have "globals_wf
              \<lparr>conversionLineBuffer = b1, baselineBuffer = b2,
               leadingSpanBBuffer = b3, laggingSpanBuffer = b4,
               conversionLineSum = s1, baselineSum = s2, leadingSpanBSum = s4,
               conversionLineIndex = i1, baselineIndex = i2,
               leadingSpanBIndex = i3, laggingSpanIndex = i4,
               conversionLineCount = c1, baselineCount = c2,
               leadingSpanBCount = c3, laggingSpanCount = c4\<rparr>"
    using p1 p2 p3 p4 wf by (simp add: globals_wf_def)
  ultimately show ?thesis by blast
qed

lemma initial_globals_wf: "globals_wf initial_globals"
  by (simp add: globals_wf_def initial_globals_def conversion_line_size_def baseline_size_def
        leading_span_b_window_def)

lemma Ichimoku_run_neutral:
  "globals_wf g \<Longrightarrow>
   \<exists>g'. Ichimoku_run g books = Inr (replicate (length books) NEUTRAL, g') \<and> globals_wf g'"
proof (induction books arbitrary: g)
  case Nil
  then show ?case by simp
next
  case (Cons b books)
  obtain askPrices askVolumes bidPrices bidVolumes where b: "b = (askPrices, askVolumes, bidPrices, bidVolumes)"
    by (cases b) auto
  from Ichimoku_neutral [OF Cons.prems] obtain g1 where
    g1: "Ichimoku g askPrices askVolumes bidPrices bidVolumes = Inr (NEUTRAL, g1)" "globals_wf g1"
    by blast
  from Cons.IH [OF g1(2)] obtain g2 where
    "Ichimoku_run g1 books = Inr (replicate (length books) NEUTRAL, g2)" "globals_wf g2"
    by blast
  then show ?case using b g1 by simp
qed

text \<open>
  C3. Whatever order books arrive, starting from the indicator's initial state, every
  call of Ichimoku returns, and returns NEUTRAL: the lagging-span buffer is as long as
  \<open>baseline_size\<close>, so the comparison sample is the slot the cursor points to, the lagging
  span itself (in the state reached, both reads give the same result), and neither the
  BUY nor the SELL condition can hold.
\<close>

theorem Ichimoku_always_neutral:
  "(\<exists>g'. Ichimoku_run initial_globals books = Inr (replicate (length books) NEUTRAL, g')
          \<and> comparison_sample (laggingSpanBuffer g') (laggingSpanIndex g')
              = vector_at (laggingSpanBuffer g') (laggingSpanIndex g'))"
proof -
  obtain g' where g': "Ichimoku_run initial_globals books = Inr (replicate (length books) NEUTRAL, g')"
    "globals_wf g'"
    using Ichimoku_run_neutral [OF initial_globals_wf, of books] by blast
  have "comparison_sample (laggingSpanBuffer g') (laggingSpanIndex g')
          = Inr (laggingSpanBuffer g' ! nat (laggingSpanIndex g'))"
    using g'(2) by (intro comparison_sample_self) (simp_all add: globals_wf_def)
  moreover have "vector_at (laggingSpanBuffer g') (laggingSpanIndex g')
          = Inr (laggingSpanBuffer g' ! nat (laggingSpanIndex g'))"
    using g'(2) by (simp add: vector_at_def globals_wf_def)
  ultimately show ?thesis using g'(1) by auto
qed

theorem Ichimoku_always_neutral_witness:
  "\<exists>g'. Ichimoku_run initial_globals
           [(one_level 1002, one_level 30, one_level 998, one_level 50),
            (one_level 1500, one_level 10, one_level 1300, one_level 20)]
         = Inr ([NEUTRAL, NEUTRAL], g')"
  using Ichimoku_always_neutral
    [of "[(one_level 1002, one_level 30, one_level 998, one_level 50),
          (one_level 1500, one_level 10, one_level 1300, one_level 20)]"]
  by auto

section \<open>The sum of the leading-span-B window\<close>

text \<open>
  C2. The first order book after the start, with best bid and best ask at 100: the
  conversion line, 100, is pushed into the leading-span-B window, and then the push into
  the lagging-span buffer adds the mid price to \<open>leadingSpanBSum\<close> as well. The
  leading-span-B window holds one value, 100, and its sum is 200.
\<close>

theorem leadingSpanBSum_after_first_update:
  "(case Ichimoku initial_globals (one_level 100) (one_level 5) (one_level 100) (one_level 5) of
      Inl e \<Rightarrow> False
    | Inr (signal, g') \<Rightarrow>
        leadingSpanBCount g' = 1
        \<and> sum_list (take (nat (leadingSpanBCount g')) (leadingSpanBBuffer g')) = 100
        \<and> leadingSpanBSum g' = 200
        \<and> conversionLineSum g'
            = sum_list (take (nat (conversionLineCount g')) (conversionLineBuffer g'))
        \<and> baselineSum g' = sum_list (take (nat (baselineCount g')) (baselineBuffer g')))"
  by code_simp


section \<open>The position stays within the limit\<close>

lemma long_result_Inr: "long_result x = Inr y \<Longrightarrow> y = x \<and> LONG_MIN \<le> x \<and> x \<le> LONG_MAX"
  by (simp add: long_result_def split: if_splits)

lemma plain_check_True: "plain_check newPosition = Inr True \<Longrightarrow> \<bar>newPosition\<bar> \<le> POSITION_LIMIT"
  by (auto simp: plain_check_def long_abs_def dest: long_result_Inr split: sum.splits)

lemma hedged_check_True:
  assumes "hedged_check (long_result x) newPosition = Inr True"
  shows "\<bar>x\<bar> \<le> POSITION_LIMIT \<and> \<bar>newPosition\<bar> \<le> POSITION_LIMIT"
  using assms
  by (auto simp: hedged_check_def long_abs_def dest: long_result_Inr plain_check_True
           split: sum.splits if_splits)

lemma OrderFilled_position:
  assumes "OrderFilledMessageHandler cfg s clientOrderId price volume = Inr s'"
  shows "mPosition s' = mPosition s \<or>
         (\<bar>mPosition s'\<bar> \<le> POSITION_LIMIT \<and>
          (if clientOrderId \<in> mAsks s
             then mPosition s' = mPosition s - to_long volume
                  \<and> \<bar>mPosition s' + mHedges s\<bar> \<le> POSITION_LIMIT
             else mPosition s' = mPosition s + to_long volume
                  \<and> \<bar>mPosition s' - mHedges s\<bar> \<le> POSITION_LIMIT))"
proof (cases "clientOrderId \<in> mAsks s")
  case True
  then obtain newPosition ok where
    np: "long_sub (mPosition s) (to_long volume) = Inr newPosition"
    and ok: "hedged_check (long_add newPosition (mHedges s)) newPosition = Inr ok"
    and s': "mPosition s' = (if ok then newPosition else mPosition s)"
    using assms by (auto simp: OrderFilledMessageHandler_def split: sum.splits)
  show ?thesis
  proof (cases ok)
    case True
    have "newPosition = mPosition s - to_long volume"
      using np by (auto simp: long_sub_def dest: long_result_Inr)
    moreover have "\<bar>newPosition + mHedges s\<bar> \<le> POSITION_LIMIT \<and> \<bar>newPosition\<bar> \<le> POSITION_LIMIT"
      using ok True hedged_check_True [of "newPosition + mHedges s" newPosition]
      by (simp add: long_add_def)
    ultimately show ?thesis using s' True \<open>clientOrderId \<in> mAsks s\<close> by simp
  next
    case False
    then show ?thesis using s' by simp
  qed
next
  case notask: False
  show ?thesis
  proof (cases "clientOrderId \<in> mBids s")
    case True
    then obtain newPosition ok where
      np: "long_add (mPosition s) (to_long volume) = Inr newPosition"
      and ok: "hedged_check (long_sub newPosition (mHedges s)) newPosition = Inr ok"
      and s': "mPosition s' = (if ok then newPosition else mPosition s)"
      using assms notask by (auto simp: OrderFilledMessageHandler_def split: sum.splits)
    show ?thesis
    proof (cases ok)
      case True
      have "newPosition = mPosition s + to_long volume"
        using np by (auto simp: long_add_def dest: long_result_Inr)
      moreover have "\<bar>newPosition - mHedges s\<bar> \<le> POSITION_LIMIT \<and> \<bar>newPosition\<bar> \<le> POSITION_LIMIT"
        using ok True hedged_check_True [of "newPosition - mHedges s" newPosition]
        by (simp add: long_sub_def)
      ultimately show ?thesis using s' True notask by simp
    next
      case False
      then show ?thesis using s' by simp
    qed
  next
    case False
    then show ?thesis using assms notask by (auto simp: OrderFilledMessageHandler_def)
  qed
qed

lemma OrderFilled_hedges:
  assumes "OrderFilledMessageHandler cfg s clientOrderId price volume = Inr s'"
  shows "mHedges s' = mHedges s"
  using assms by (auto simp: OrderFilledMessageHandler_def split: sum.splits if_splits)

lemma OrderFilled_bound:
  assumes "OrderFilledMessageHandler cfg s clientOrderId price volume = Inr s'"
    and "\<bar>mPosition s\<bar> \<le> POSITION_LIMIT"
  shows "\<bar>mPosition s'\<bar> \<le> POSITION_LIMIT"
  using OrderFilled_position [OF assms(1)] assms(2) by auto


lemma OrderFilled_defined:
  assumes "\<bar>mPosition s\<bar> \<le> POSITION_LIMIT" "\<bar>mHedges s\<bar> \<le> 2 ^ 61" "\<bar>to_long volume\<bar> \<le> 2 ^ 61"
  shows "\<exists>s'. OrderFilledMessageHandler cfg s clientOrderId price volume = Inr s'"
proof -
  have r: "\<And>x. \<bar>x\<bar> \<le> 2 ^ 63 - 1 \<Longrightarrow> long_result x = Inr x"
    by (auto simp: long_result_def LONG_MIN_def LONG_MAX_def)
  have pc: "\<And>x. \<bar>x\<bar> \<le> 2 ^ 63 - 1 \<Longrightarrow> \<exists>b. plain_check x = Inr b"
    using r by (simp add: plain_check_def long_abs_def)
  have hc: "\<And>x y. \<bar>x\<bar> \<le> 2 ^ 63 - 1 \<Longrightarrow> \<bar>y\<bar> \<le> 2 ^ 63 - 1 \<Longrightarrow> \<exists>b. hedged_check (long_result x) y = Inr b"
    using r pc by (auto simp: hedged_check_def long_abs_def)
  have a: "\<bar>mPosition s - to_long volume\<bar> \<le> 2 ^ 63 - 1" "\<bar>mPosition s + to_long volume\<bar> \<le> 2 ^ 63 - 1"
    using assms by (simp_all add: POSITION_LIMIT_def)
  have b: "\<bar>mPosition s - to_long volume + mHedges s\<bar> \<le> 2 ^ 63 - 1"
      "\<bar>mPosition s + to_long volume - mHedges s\<bar> \<le> 2 ^ 63 - 1"
    using assms by (simp_all add: POSITION_LIMIT_def)
  obtain b1 where b1: "hedged_check (long_result (mPosition s - to_long volume + mHedges s))
                         (mPosition s - to_long volume) = Inr b1"
    using hc [OF b(1) a(1)] by blast
  obtain b2 where b2: "hedged_check (long_result (mPosition s + to_long volume - mHedges s))
                         (mPosition s + to_long volume) = Inr b2"
    using hc [OF b(2) a(2)] by blast
  show ?thesis
    using r [OF a(1)] r [OF a(2)] b1 b2
    by (simp add: OrderFilledMessageHandler_def long_sub_def long_add_def)
qed




lemma long_result_range: "long_result x = Inr y \<Longrightarrow> LONG_MIN \<le> y \<and> y \<le> LONG_MAX"
  using long_result_Inr [of x y] by simp





lemma list_all_take: "list_all P xs \<Longrightarrow> list_all P (take n xs)"
  by (induction xs arbitrary: n) (auto simp: take_Cons split: nat.splits)




section \<open>What an order book changes\<close>

text \<open>
  The block that requotes a side does nothing when the target price is 0 or is the price
  already quoted, and it leaves the price it was given as the quoted price. The handler
  runs the two blocks first, so every later copy of them finds nothing to do.
\<close>

lemma requoteAsk_same: "newAsk = 0 \<or> newAsk = mAskPrice s \<Longrightarrow> requoteAsk s newAsk askQty = s"
  by (auto simp: requoteAsk_def)

lemma requoteBid_same: "newBid = 0 \<or> newBid = mBidPrice s \<Longrightarrow> requoteBid s newBid bidQty = s"
  by (auto simp: requoteBid_def)

lemma requoteAsk_price: "newAsk = 0 \<or> mAskPrice (requoteAsk s newAsk askQty) = newAsk"
  by (simp add: requoteAsk_def Let_def)

lemma requoteBid_price: "newBid = 0 \<or> mBidPrice (requoteBid s newBid bidQty) = newBid"
  by (simp add: requoteBid_def Let_def)

lemma requoteBid_frame:
  "mAskPrice (requoteBid s newBid bidQty) = mAskPrice s"
  "mAskId (requoteBid s newBid bidQty) = mAskId s"
  "PendingCancelAsk (requoteBid s newBid bidQty) = PendingCancelAsk s"
  "mAsks (requoteBid s newBid bidQty) = mAsks s"
  "mPosition (requoteBid s newBid bidQty) = mPosition s"
  "mHedges (requoteBid s newBid bidQty) = mHedges s"
  "longInventory (requoteBid s newBid bidQty) = longInventory s"
  "shortInventory (requoteBid s newBid bidQty) = shortInventory s"
  "lotSize (requoteBid s newBid bidQty) = lotSize s"
  by (simp_all add: requoteBid_def Let_def)

lemma requoteAsk_frame:
  "mBidPrice (requoteAsk s newAsk askQty) = mBidPrice s"
  "mBidId (requoteAsk s newAsk askQty) = mBidId s"
  "PendingCancelBid (requoteAsk s newAsk askQty) = PendingCancelBid s"
  "mBids (requoteAsk s newAsk askQty) = mBids s"
  "mPosition (requoteAsk s newAsk askQty) = mPosition s"
  "mHedges (requoteAsk s newAsk askQty) = mHedges s"
  "longInventory (requoteAsk s newAsk askQty) = longInventory s"
  "shortInventory (requoteAsk s newAsk askQty) = shortInventory s"
  "lotSize (requoteAsk s newAsk askQty) = lotSize s"
  by (simp_all add: requoteAsk_def Let_def)

lemma actOnSignal_settled:
  assumes "newAsk = 0 \<or> newAsk = mAskPrice s" "newBid = 0 \<or> newBid = mBidPrice s"
  shows "actOnSignal g signal s newAsk askQty newBid bidQty = s"
  using assms by (simp add: actOnSignal_def requoteAsk_same requoteBid_same)

lemma fold_long_settled:
  assumes "newAsk = 0 \<or> newAsk = mAskPrice s"
  shows "fold (\<lambda>(longId, longCostBasis) st.
                 if newAsk \<noteq> 0 \<and> newAsk \<noteq> mAskPrice st
                   then (if longCostBasis < midPrice then requoteAsk st newAsk askQty else st)
                 else st) entries s = s"
  using assms by (induction entries) (auto simp: case_prod_beta)

lemma fold_short_settled:
  assumes "newBid = 0 \<or> newBid = mBidPrice s"
  shows "fold (\<lambda>(shortId, shortCostBasis) st.
                 if midPrice < shortCostBasis then requoteBid st newBid bidQty else st) entries s = s"
  using assms by (induction entries) (auto simp: case_prod_beta requoteBid_same)

lemma unloadInventory_settled:
  assumes "newAsk = 0 \<or> newAsk = mAskPrice s" "newBid = 0 \<or> newBid = mBidPrice s"
  shows "unloadInventory s midPrice newAsk askQty newBid bidQty = s"
  using assms by (simp add: unloadInventory_def fold_long_settled fold_short_settled Let_def)

lemma afterIchimoku_settled:
  assumes "newAsk = 0 \<or> newAsk = mAskPrice s" "newBid = 0 \<or> newBid = mBidPrice s"
  shows "afterIchimoku g signal s midPrice newAsk askQty newBid bidQty = s"
  using assms by (simp add: afterIchimoku_def actOnSignal_settled unloadInventory_settled)

lemma afterIchimoku_requoted:
  "afterIchimoku g signal (requoteBid (requoteAsk s newAsk askQty) newBid bidQty)
     midPrice newAsk askQty newBid bidQty
   = requoteBid (requoteAsk s newAsk askQty) newBid bidQty"
proof (rule afterIchimoku_settled)
  show "newAsk = 0 \<or> newAsk = mAskPrice (requoteBid (requoteAsk s newAsk askQty) newBid bidQty)"
    using requoteAsk_price [of newAsk s askQty] by (auto simp: requoteBid_frame)
  show "newBid = 0 \<or> newBid = mBidPrice (requoteBid (requoteAsk s newAsk askQty) newBid bidQty)"
    using requoteBid_price [of newBid "requoteAsk s newAsk askQty" bidQty] by auto
qed

lemma OrderBookMessageHandler_FUTURE:
  "OrderBookMessageHandler cfg (s, g) FUTURE sequenceNumber askPrices askVolumes bidPrices bidVolumes =
     (case newAskPrice cfg s askPrices askVolumes bidPrices bidVolumes of
        Inl e \<Rightarrow> Inl e
      | Inr newAsk \<Rightarrow>
      case newBidPrice cfg s askPrices askVolumes bidPrices bidVolumes of
        Inl e \<Rightarrow> Inl e
      | Inr newBid \<Rightarrow>
      case askQuantity s of
        Inl e \<Rightarrow> Inl e
      | Inr askQty \<Rightarrow>
      case bidQuantity s of
        Inl e \<Rightarrow> Inl e
      | Inr bidQty \<Rightarrow>
      case Ichimoku g askPrices askVolumes bidPrices bidVolumes of
        Inl e \<Rightarrow> Inl e
      | Inr (signal, g') \<Rightarrow> Inr (requoteBid (requoteAsk s newAsk askQty) newBid bidQty, g'))"
  by (simp add: OrderBookMessageHandler_def afterIchimoku_requoted Let_def
           split: sum.splits prod.splits)

lemma OrderBookMessageHandler_frame:
  assumes "OrderBookMessageHandler cfg (s, g) instrument sequenceNumber askPrices askVolumes
             bidPrices bidVolumes = Inr (s', g')"
  shows "mPosition s' = mPosition s \<and> mHedges s' = mHedges s
         \<and> longInventory s' = longInventory s \<and> shortInventory s' = shortInventory s
         \<and> lotSize s' = lotSize s"
proof (cases instrument)
  case FUTURE
  then show ?thesis
    using assms
    by (auto simp: OrderBookMessageHandler_FUTURE requoteAsk_frame requoteBid_frame
             split: sum.splits prod.splits)
next
  case ETF
  then show ?thesis
    using assms by (auto simp: OrderBookMessageHandler_def split: sum.splits)
qed

lemma OrderStatus_frame:
  "mPosition (OrderStatusMessageHandler s clientOrderId fillVolume remainingVolume fees) = mPosition s"
  "mHedges (OrderStatusMessageHandler s clientOrderId fillVolume remainingVolume fees) = mHedges s"
  by (simp_all add: OrderStatusMessageHandler_def Let_def)

lemma Error_frame:
  "mPosition (ErrorMessageHandler s clientOrderId errorMessage) = mPosition s"
  "mHedges (ErrorMessageHandler s clientOrderId errorMessage) = mHedges s"
  by (simp_all add: ErrorMessageHandler_def OrderStatus_frame)

lemma handle_invariant:
  assumes "handle cfg (s, g) ev = Inr (s', g')"
  shows "mHedges s' = mHedges s
         \<and> (\<bar>mPosition s\<bar> \<le> POSITION_LIMIT \<longrightarrow> \<bar>mPosition s'\<bar> \<le> POSITION_LIMIT)"
proof (cases ev)
  case (OrderBook instrument sequenceNumber askPrices askVolumes bidPrices bidVolumes)
  then show ?thesis using assms OrderBookMessageHandler_frame by fastforce
next
  case (OrderFilled clientOrderId price volume)
  then obtain s1 where "OrderFilledMessageHandler cfg s clientOrderId price volume = Inr s1" "s' = s1"
    using assms by (auto split: sum.splits)
  then show ?thesis using OrderFilled_hedges OrderFilled_bound by blast
qed (use assms in \<open>auto simp: OrderStatus_frame Error_frame\<close>)

lemma run_invariant:
  "run cfg (s, g) evs = Inr (s', g') \<Longrightarrow>
   mHedges s' = mHedges s
   \<and> (\<bar>mPosition s\<bar> \<le> POSITION_LIMIT \<longrightarrow> \<bar>mPosition s'\<bar> \<le> POSITION_LIMIT)"
proof (induction evs arbitrary: s g)
  case Nil
  then show ?case by simp
next
  case (Cons ev evs)
  then obtain s1 g1 where
    h: "handle cfg (s, g) ev = Inr (s1, g1)" and r: "run cfg (s1, g1) evs = Inr (s', g')"
    by (auto split: sum.splits)
  show ?case using handle_invariant [OF h] Cons.IH [OF r] by simp
qed

lemma requoteAsk_active:
  assumes "mAskId s \<noteq> 0" "newAsk \<noteq> 0" "newAsk \<noteq> mAskPrice s"
  shows "requoteAsk s newAsk askQty
         = s\<lparr>sent := sent s @ [SendCancelOrder (mAskId s)], PendingCancelAsk := True,
              mAskPrice := newAsk\<rparr>"
  using assms by (simp add: requoteAsk_def Let_def)

lemma requoteBid_active:
  assumes "mBidId s \<noteq> 0" "newBid \<noteq> 0" "newBid \<noteq> mBidPrice s"
  shows "requoteBid s newBid bidQty
         = s\<lparr>sent := sent s @ [SendCancelOrder (mBidId s)], PendingCancelBid := True,
              mBidPrice := newBid\<rparr>"
  using assms by (simp add: requoteBid_def Let_def)

lemma requoteAsk_sent:
  "\<exists>new. sent (requoteAsk s newAsk askQty) = sent s @ new \<and> filter (is_insert_on Side_BUY) new = []"
  by (simp add: requoteAsk_def Let_def)

lemma requoteBid_sent:
  "\<exists>new. sent (requoteBid s newBid bidQty) = sent s @ new \<and> filter (is_insert_on Side_SELL) new = []"
  by (simp add: requoteBid_def Let_def)

lemma OrderBookMessageHandler_requotes:
  assumes "globals_wf g"
    and "newAskPrice cfg s askPrices askVolumes bidPrices bidVolumes = Inr newAsk"
    and "newBidPrice cfg s askPrices askVolumes bidPrices bidVolumes = Inr newBid"
    and "askQuantity s = Inr askQty" and "bidQuantity s = Inr bidQty"
  shows "\<exists>g'. globals_wf g' \<and>
           OrderBookMessageHandler cfg (s, g) FUTURE sequenceNumber askPrices askVolumes
             bidPrices bidVolumes
           = Inr (requoteBid (requoteAsk s newAsk askQty) newBid bidQty, g')"
proof -
  obtain g' where "Ichimoku g askPrices askVolumes bidPrices bidVolumes = Inr (NEUTRAL, g')"
    and "globals_wf g'"
    using Ichimoku_neutral [OF assms(1)] by blast
  then show ?thesis using assms(2-5) by (simp add: OrderBookMessageHandler_FUTURE)
qed

section \<open>Examples of order books\<close>

lemma level0_one_level: "level0 (one_level x) = x"
  by (simp add: one_level_def)

lemma spread_1002_998:
  "WeightedAverageSpread_exact (one_level 1002) (one_level 30) (one_level 998) (one_level 50) = 2"
  by (simp add: WeightedAverageSpread_exact_def spread_level_def one_level_def)

lemma spread_1102_1098:
  "WeightedAverageSpread_exact (one_level 1102) (one_level 30) (one_level 1098) (one_level 50) = 2"
  by (simp add: WeightedAverageSpread_exact_def spread_level_def one_level_def)

lemmas example_defs =
  newAskPrice_def newBidPrice_def askQuantity_def bidQuantity_def exact_env_def
  priceAdjustment_def to_ulong_def rat_to_ulong_def round_to_tick_def TICK_SIZE_IN_CENTS_def
  LOT_SIZE_def POSITION_LIMIT_def long_add_def long_sub_def long_result_def LONG_MIN_def
  LONG_MAX_def level0_one_level

lemma first_quote_prices:
  "newAskPrice exact_env initial_trader (one_level 1002) (one_level 30) (one_level 998) (one_level 50) = Inr 1000"
  "newBidPrice exact_env initial_trader (one_level 1002) (one_level 30) (one_level 998) (one_level 50) = Inr 900"
  "askQuantity initial_trader = Inr 100"
  "bidQuantity initial_trader = Inr 100"
  by (simp_all add: example_defs spread_1002_998 initial_trader_def)

lemma second_quote_prices:
  "newAskPrice exact_env quoting_trader (one_level 1102) (one_level 30) (one_level 1098) (one_level 50) = Inr 1100"
  "newBidPrice exact_env quoting_trader (one_level 1102) (one_level 30) (one_level 1098) (one_level 50) = Inr 1000"
  "askQuantity quoting_trader = Inr 100"
  "bidQuantity quoting_trader = Inr 100"
  by (simp_all add: example_defs spread_1102_1098 quoting_trader_def initial_trader_def)

lemma first_requote:
  "requoteBid (requoteAsk initial_trader 1000 100) 900 100 = quoting_trader"
  by (simp add: requoteAsk_def requoteBid_def quoting_trader_def initial_trader_def Let_def)

lemma second_requote:
  "requoteBid (requoteAsk quoting_trader 1100 100) 1000 100 =
     quoting_trader\<lparr>mAskPrice := 1100, mBidPrice := 1000, PendingCancelAsk := True,
       PendingCancelBid := True,
       sent := sent quoting_trader @ [SendCancelOrder 1, SendCancelOrder 2]\<rparr>"
  by (simp add: requoteAsk_def requoteBid_def quoting_trader_def initial_trader_def Let_def)

lemma first_update:
  "\<exists>g1. globals_wf g1 \<and>
     OrderBookMessageHandler exact_env (initial_trader, initial_globals) FUTURE 1
       (one_level 1002) (one_level 30) (one_level 998) (one_level 50) = Inr (quoting_trader, g1)"
  using OrderBookMessageHandler_requotes [OF initial_globals_wf first_quote_prices, of 1]
  by (simp add: first_requote)

lemma second_update:
  assumes "globals_wf g1"
  shows "\<exists>g2. globals_wf g2 \<and>
     OrderBookMessageHandler exact_env (quoting_trader, g1) FUTURE 2
       (one_level 1102) (one_level 30) (one_level 1098) (one_level 50)
     = Inr (quoting_trader\<lparr>mAskPrice := 1100, mBidPrice := 1000, PendingCancelAsk := True,
              PendingCancelBid := True,
              sent := sent quoting_trader @ [SendCancelOrder 1, SendCancelOrder 2]\<rparr>, g2)"
  using OrderBookMessageHandler_requotes [OF assms second_quote_prices, of 2]
  by (simp add: second_requote)

lemma example_fill:
  "\<exists>s g. run exact_env (initial_trader, initial_globals)
            [OrderBook FUTURE 1 (one_level 1002) (one_level 30) (one_level 998) (one_level 50),
             OrderFilled 2 900 100] = Inr (s, g)
         \<and> mPosition s = 100 \<and> mHedges s = 0"
proof -
  obtain g1 where g1:
    "OrderBookMessageHandler exact_env (initial_trader, initial_globals) FUTURE 1
       (one_level 1002) (one_level 30) (one_level 998) (one_level 50) = Inr (quoting_trader, g1)"
    using first_update by blast
  have "(case OrderFilledMessageHandler exact_env quoting_trader 2 900 100 of
           Inl e \<Rightarrow> False | Inr s \<Rightarrow> mPosition s = 100 \<and> mHedges s = 0)"
    by code_simp
  then obtain s where "OrderFilledMessageHandler exact_env quoting_trader 2 900 100 = Inr s"
    "mPosition s = 100" "mHedges s = 0"
    by (auto split: sum.splits)
  then show ?thesis using g1 by simp
qed

section \<open>The price adjustment\<close>

lemma sdiv_small: "\<bar>x\<bar> < LOT_SIZE \<Longrightarrow> x sdiv LOT_SIZE = 0"
  by (simp add: signed_divide_int_def LOT_SIZE_def)

lemma priceAdjustment_small: "\<bar>mPosition s\<bar> < LOT_SIZE \<Longrightarrow> priceAdjustment s = 0"
  by (simp add: priceAdjustment_def sdiv_small to_ulong_def)

lemma prices_unskewed:
  assumes "priceAdjustment s = 0"
  shows "newAskPrice cfg s askPrices askVolumes bidPrices bidVolumes
           = newAskPrice cfg (s\<lparr>mPosition := 0\<rparr>) askPrices askVolumes bidPrices bidVolumes"
    and "newBidPrice cfg s askPrices askVolumes bidPrices bidVolumes
           = newBidPrice cfg (s\<lparr>mPosition := 0\<rparr>) askPrices askVolumes bidPrices bidVolumes"
  using assms by (simp_all add: newAskPrice_def newBidPrice_def priceAdjustment_def to_ulong_def)

lemma reachable_position:
  assumes "run cfg (initial_trader, initial_globals) evs = Inr (s, g)"
  shows "\<bar>mPosition s\<bar> \<le> POSITION_LIMIT" and "mHedges s = 0"
  using run_invariant [OF assms] by (simp_all add: initial_trader_def POSITION_LIMIT_def)

lemma prices_flat:
  assumes "priceAdjustment s = 0"
  shows "newAskPrice cfg s askPrices askVolumes bidPrices bidVolumes
           = newAskPrice cfg initial_trader askPrices askVolumes bidPrices bidVolumes"
    and "newBidPrice cfg s askPrices askVolumes bidPrices bidVolumes
           = newBidPrice cfg initial_trader askPrices askVolumes bidPrices bidVolumes"
proof -
  have "priceAdjustment initial_trader = 0"
    by (simp add: priceAdjustment_def initial_trader_def to_ulong_def)
  then show "newAskPrice cfg s askPrices askVolumes bidPrices bidVolumes
           = newAskPrice cfg initial_trader askPrices askVolumes bidPrices bidVolumes"
    and "newBidPrice cfg s askPrices askVolumes bidPrices bidVolumes
           = newBidPrice cfg initial_trader askPrices askVolumes bidPrices bidVolumes"
    using assms by (simp_all add: newAskPrice_def newBidPrice_def)
qed

lemma quantities_defined:
  assumes "\<bar>mPosition s\<bar> \<le> POSITION_LIMIT"
  shows "\<exists>askQty bidQty. askQuantity s = Inr askQty \<and> bidQuantity s = Inr bidQty"
  using assms
  by (auto simp: askQuantity_def bidQuantity_def long_add_def long_sub_def long_result_def
        POSITION_LIMIT_def LONG_MIN_def LONG_MAX_def)

lemma OrderBookMessageHandler_defined:
  assumes pos: "\<bar>mPosition s\<bar> \<le> POSITION_LIMIT" and wf: "globals_wf g"
    and ask: "defined (newAskPrice cfg initial_trader askPrices askVolumes bidPrices bidVolumes)"
    and bid: "defined (newBidPrice cfg initial_trader askPrices askVolumes bidPrices bidVolumes)"
  shows "\<exists>s' g'. OrderBookMessageHandler cfg (s, g) instrument sequenceNumber askPrices askVolumes
                    bidPrices bidVolumes = Inr (s', g')
                 \<and> globals_wf g'"
proof -
  have small: "\<bar>mPosition s\<bar> < LOT_SIZE" using pos by (simp add: POSITION_LIMIT_def LOT_SIZE_def)
  have zero: "priceAdjustment s = 0" using small by (rule priceAdjustment_small)
  obtain newAsk where a: "newAskPrice cfg s askPrices askVolumes bidPrices bidVolumes = Inr newAsk"
    using ask prices_flat(1) [OF zero, of cfg askPrices askVolumes bidPrices bidVolumes]
    by (auto simp: defined_def split: sum.splits)
  obtain newBid where b: "newBidPrice cfg s askPrices askVolumes bidPrices bidVolumes = Inr newBid"
    using bid prices_flat(2) [OF zero, of cfg askPrices askVolumes bidPrices bidVolumes]
    by (auto simp: defined_def split: sum.splits)
  obtain askQty bidQty where q: "askQuantity s = Inr askQty" "bidQuantity s = Inr bidQty"
    using quantities_defined [OF pos] by blast
  show ?thesis
  proof (cases instrument)
    case FUTURE
    then show ?thesis
      using OrderBookMessageHandler_requotes [OF wf a b q, of sequenceNumber] by blast
  next
    case ETF
    then show ?thesis using a b q wf by (simp add: OrderBookMessageHandler_def)
  qed
qed

lemma handle_defined:
  assumes pos: "\<bar>mPosition s\<bar> \<le> POSITION_LIMIT" and hedges: "mHedges s = 0"
    and wf: "globals_wf g" and ev: "admissible cfg ev"
  shows "\<exists>s' g'. handle cfg (s, g) ev = Inr (s', g') \<and> globals_wf g'"
proof (cases ev)
  case (OrderBook instrument sequenceNumber askPrices askVolumes bidPrices bidVolumes)
  then show ?thesis
    using OrderBookMessageHandler_defined [OF pos wf, of cfg askPrices askVolumes bidPrices
        bidVolumes instrument sequenceNumber] ev
    by simp
next
  case (OrderFilled clientOrderId price volume)
  then have "\<bar>to_long volume\<bar> \<le> 2 ^ 61" using ev by simp
  moreover have "\<bar>mHedges s\<bar> \<le> 2 ^ 61" using hedges by simp
  ultimately obtain s' where "OrderFilledMessageHandler cfg s clientOrderId price volume = Inr s'"
    using OrderFilled_defined [OF pos] by blast
  then show ?thesis using OrderFilled wf by simp
qed (use wf in simp_all)

lemma run_defined:
  "\<bar>mPosition s\<bar> \<le> POSITION_LIMIT \<Longrightarrow> mHedges s = 0 \<Longrightarrow> globals_wf g \<Longrightarrow>
   list_all (admissible cfg) evs \<Longrightarrow>
   \<exists>s' g'. run cfg (s, g) evs = Inr (s', g')"
proof (induction evs arbitrary: s g)
  case Nil
  then show ?case by simp
next
  case (Cons ev evs)
  have ev: "admissible cfg ev" and evs: "list_all (admissible cfg) evs"
    using Cons.prems(4) by simp_all
  obtain s1 g1 where h: "handle cfg (s, g) ev = Inr (s1, g1)" and wf1: "globals_wf g1"
    using handle_defined [OF Cons.prems(1,2,3) ev] by blast
  have "mHedges s1 = 0" "\<bar>mPosition s1\<bar> \<le> POSITION_LIMIT"
    using handle_invariant [OF h] Cons.prems(1,2) by simp_all
  then obtain s' g' where "run cfg (s1, g1) evs = Inr (s', g')"
    using Cons.IH [OF _ _ wf1 evs] by blast
  then show ?case using h by simp
qed

lemma example_events_admissible:
  "list_all (admissible exact_env)
     [OrderBook FUTURE 1 (one_level 1002) (one_level 30) (one_level 998) (one_level 50),
      OrderFilled 2 900 100]"
  by (simp add: defined_def first_quote_prices to_long_def)

text \<open>
  C9, as amended. When the position is smaller than \<open>LOT_SIZE\<close> in absolute value, the
  truncating division \<open>mPosition / LOT_SIZE\<close> is 0 and so is \<open>priceAdjustment\<close>.
  Every sequence of admissible events (fills of at most \<open>2 ^ 61\<close> lots, order books
  whose target prices are in range) runs from the initial state to its end, and after each
  of its events the position is within \<open>POSITION_LIMIT\<close>, hence smaller than
  \<open>LOT_SIZE\<close>, the adjustment is 0 and the target prices of any order book are those of
  a flat position. The same holds in every state reached from the initial state with
  defined arithmetic.
\<close>

theorem priceAdjustment_always_zero:
  "(\<bar>mPosition s\<bar> < LOT_SIZE \<longrightarrow> mPosition s sdiv LOT_SIZE = 0 \<and> priceAdjustment s = 0)
   \<and> (list_all (admissible cfg) evs \<longrightarrow>
        (\<forall>n. \<exists>t h. run cfg (initial_trader, initial_globals) (take n evs) = Inr (t, h)
               \<and> \<bar>mPosition t\<bar> \<le> POSITION_LIMIT \<and> \<bar>mPosition t\<bar> < LOT_SIZE
               \<and> priceAdjustment t = 0
               \<and> newAskPrice cfg t askPrices askVolumes bidPrices bidVolumes
                   = newAskPrice cfg (t\<lparr>mPosition := 0\<rparr>) askPrices askVolumes bidPrices bidVolumes
               \<and> newBidPrice cfg t askPrices askVolumes bidPrices bidVolumes
                   = newBidPrice cfg (t\<lparr>mPosition := 0\<rparr>) askPrices askVolumes bidPrices bidVolumes))
   \<and> (run cfg (initial_trader, initial_globals) evs = Inr (s', g') \<longrightarrow>
        \<bar>mPosition s'\<bar> < LOT_SIZE \<and> priceAdjustment s' = 0
        \<and> newAskPrice cfg s' askPrices askVolumes bidPrices bidVolumes
            = newAskPrice cfg (s'\<lparr>mPosition := 0\<rparr>) askPrices askVolumes bidPrices bidVolumes
        \<and> newBidPrice cfg s' askPrices askVolumes bidPrices bidVolumes
            = newBidPrice cfg (s'\<lparr>mPosition := 0\<rparr>) askPrices askVolumes bidPrices bidVolumes)"
proof (intro conjI impI allI)
  assume small: "\<bar>mPosition s\<bar> < LOT_SIZE"
  show "mPosition s sdiv LOT_SIZE = 0" using small by (rule sdiv_small)
  show "priceAdjustment s = 0" using small by (rule priceAdjustment_small)
next
  fix n
  assume "list_all (admissible cfg) evs"
  then have "list_all (admissible cfg) (take n evs)" by (rule list_all_take)
  then obtain t h where r: "run cfg (initial_trader, initial_globals) (take n evs) = Inr (t, h)"
    using run_defined [of initial_trader initial_globals cfg "take n evs"] initial_globals_wf
    by (auto simp: initial_trader_def POSITION_LIMIT_def)
  have pos: "\<bar>mPosition t\<bar> \<le> POSITION_LIMIT" using reachable_position(1) [OF r] .
  then have small: "\<bar>mPosition t\<bar> < LOT_SIZE" by (simp add: POSITION_LIMIT_def LOT_SIZE_def)
  then have zero: "priceAdjustment t = 0" by (rule priceAdjustment_small)
  show "\<exists>t h. run cfg (initial_trader, initial_globals) (take n evs) = Inr (t, h)
               \<and> \<bar>mPosition t\<bar> \<le> POSITION_LIMIT \<and> \<bar>mPosition t\<bar> < LOT_SIZE
               \<and> priceAdjustment t = 0
               \<and> newAskPrice cfg t askPrices askVolumes bidPrices bidVolumes
                   = newAskPrice cfg (t\<lparr>mPosition := 0\<rparr>) askPrices askVolumes bidPrices bidVolumes
               \<and> newBidPrice cfg t askPrices askVolumes bidPrices bidVolumes
                   = newBidPrice cfg (t\<lparr>mPosition := 0\<rparr>) askPrices askVolumes bidPrices bidVolumes"
    using r pos small zero prices_unskewed [OF zero] by blast
next
  assume r: "run cfg (initial_trader, initial_globals) evs = Inr (s', g')"
  have "\<bar>mPosition s'\<bar> \<le> POSITION_LIMIT" using reachable_position(1) [OF r] .
  then show small: "\<bar>mPosition s'\<bar> < LOT_SIZE" by (simp add: POSITION_LIMIT_def LOT_SIZE_def)
  then show zero: "priceAdjustment s' = 0" by (rule priceAdjustment_small)
  show "newAskPrice cfg s' askPrices askVolumes bidPrices bidVolumes
            = newAskPrice cfg (s'\<lparr>mPosition := 0\<rparr>) askPrices askVolumes bidPrices bidVolumes"
    using zero by (rule prices_unskewed(1))
  show "newBidPrice cfg s' askPrices askVolumes bidPrices bidVolumes
            = newBidPrice cfg (s'\<lparr>mPosition := 0\<rparr>) askPrices askVolumes bidPrices bidVolumes"
    using zero by (rule prices_unskewed(2))
qed

theorem priceAdjustment_always_zero_witness:
  "\<bar>mPosition (quoting_trader\<lparr>mPosition := - 150\<rparr>)\<bar> < LOT_SIZE
   \<and> mPosition (quoting_trader\<lparr>mPosition := - 150\<rparr>) sdiv LOT_SIZE = 0
   \<and> list_all (admissible exact_env)
        [OrderBook FUTURE 1 (one_level 1002) (one_level 30) (one_level 998) (one_level 50),
         OrderFilled 2 900 100]
   \<and> (\<exists>s g. run exact_env (initial_trader, initial_globals)
               [OrderBook FUTURE 1 (one_level 1002) (one_level 30) (one_level 998) (one_level 50),
                OrderFilled 2 900 100] = Inr (s, g)
             \<and> mPosition s = 100 \<and> priceAdjustment s = 0)
   \<and> (\<exists>t h. run exact_env (initial_trader, initial_globals)
               (take 1 [OrderBook FUTURE 1 (one_level 1002) (one_level 30) (one_level 998)
                          (one_level 50),
                        OrderFilled 2 900 100]) = Inr (t, h)
             \<and> priceAdjustment t = 0)"
proof -
  let ?evs = "[OrderBook FUTURE 1 (one_level 1002) (one_level 30) (one_level 998) (one_level 50),
               OrderFilled 2 900 100]"
  have small: "\<bar>mPosition (quoting_trader\<lparr>mPosition := - 150\<rparr>)\<bar> < LOT_SIZE"
    by (simp add: LOT_SIZE_def)
  obtain s g where r: "run exact_env (initial_trader, initial_globals) ?evs = Inr (s, g)"
    "mPosition s = 100"
    using example_fill by blast
  have inst: "(\<bar>mPosition (quoting_trader\<lparr>mPosition := - 150\<rparr>)\<bar> < LOT_SIZE \<longrightarrow>
        mPosition (quoting_trader\<lparr>mPosition := - 150\<rparr>) sdiv LOT_SIZE = 0
        \<and> priceAdjustment (quoting_trader\<lparr>mPosition := - 150\<rparr>) = 0)
    \<and> (list_all (admissible exact_env) ?evs \<longrightarrow>
        (\<forall>n. \<exists>t h. run exact_env (initial_trader, initial_globals) (take n ?evs) = Inr (t, h)
               \<and> priceAdjustment t = 0))
    \<and> (run exact_env (initial_trader, initial_globals) ?evs = Inr (s, g) \<longrightarrow>
        priceAdjustment s = 0)"
    using priceAdjustment_always_zero [of "quoting_trader\<lparr>mPosition := - 150\<rparr>" exact_env
        ?evs "one_level 1" "one_level 1" "one_level 1" "one_level 1" s g]
    by blast
  show ?thesis using inst small r example_events_admissible by blast
qed

text \<open>
  C9 as stated fails. After the first order book the bid 2 is tracked and the position
  is 0. A fill of that bid with volume \<open>2 ^ 63\<close> is undefined in C++ (\<^verbatim>\<open>std::abs\<close> of
  the least \<^verbatim>\<open>long\<close>); the compiled handler stores the least \<^verbatim>\<open>long\<close> as the
  position, which is not smaller than \<open>LOT_SIZE\<close> in absolute value, and the price
  adjustment of that state is 4611686018427387900.
\<close>

theorem priceAdjustment_counterexample:
  "(\<exists>g1. run exact_env (initial_trader, initial_globals)
            [OrderBook FUTURE 1 (one_level 1002) (one_level 30) (one_level 998) (one_level 50)]
          = Inr (quoting_trader, g1))
   \<and> 2 \<in> mBids quoting_trader \<and> mPosition quoting_trader = 0
   \<and> run exact_env (initial_trader, initial_globals)
        [OrderBook FUTURE 1 (one_level 1002) (one_level 30) (one_level 998) (one_level 50),
         OrderFilled 2 900 9223372036854775808]
      = Inl SignedOverflow
   \<and> mPosition (OrderFilledMessageHandler_as_built exact_env quoting_trader 2 900
        9223372036854775808) = - 9223372036854775808
   \<and> priceAdjustment (OrderFilledMessageHandler_as_built exact_env quoting_trader 2 900
        9223372036854775808) = 4611686018427387900"
proof -
  obtain g1 where g1:
    "OrderBookMessageHandler exact_env (initial_trader, initial_globals) FUTURE 1
       (one_level 1002) (one_level 30) (one_level 998) (one_level 50) = Inr (quoting_trader, g1)"
    using first_update by blast
  have q: "2 \<in> mBids quoting_trader" "mPosition quoting_trader = 0"
    by (simp_all add: quoting_trader_def initial_trader_def)
  have ub: "OrderFilledMessageHandler exact_env quoting_trader 2 900 9223372036854775808
            = Inl SignedOverflow"
    by code_simp
  have built: "mPosition (OrderFilledMessageHandler_as_built exact_env quoting_trader 2 900
        9223372036854775808) = - 9223372036854775808"
    by code_simp
  have adj: "priceAdjustment (OrderFilledMessageHandler_as_built exact_env quoting_trader 2 900
        9223372036854775808) = 4611686018427387900"
    by (simp add: priceAdjustment_def built LOT_SIZE_def TICK_SIZE_IN_CENTS_def
          signed_divide_int_def to_ulong_def)
  show ?thesis using g1 q ub built adj by simp
qed


section \<open>The hedge counter\<close>

lemma hedged_is_plain:
  assumes "LONG_MIN \<le> newPosition" "newPosition \<le> LONG_MAX"
  shows "hedged_check (long_add newPosition 0) newPosition = plain_check newPosition"
    and "hedged_check (long_sub newPosition 0) newPosition = plain_check newPosition"
  using assms
  by (auto simp: hedged_check_def plain_check_def long_add_def long_sub_def long_result_def
        long_abs_def split: sum.splits)

text \<open>
  C10. \<open>mHedges\<close> starts at 0 and no handler changes it, so it is 0 in every state
  reached from the initial state; there the hedge-adjusted check of
  OrderFilledMessageHandler, for a filled ask and for a filled bid, gives the same result
  as the plain check \<open>\<bar>newPosition\<bar> \<le> POSITION_LIMIT\<close> for every \<^verbatim>\<open>long\<close> value of
  the new position.
\<close>

theorem mHedges_always_zero:
  "mHedges initial_trader = 0
   \<and> (handle cfg (s, g) ev = Inr (s', g') \<longrightarrow> mHedges s' = mHedges s)
   \<and> (run cfg (initial_trader, initial_globals) evs = Inr (t, h) \<longrightarrow>
        mHedges t = 0
        \<and> (LONG_MIN \<le> newPosition \<and> newPosition \<le> LONG_MAX \<longrightarrow>
             hedged_check (long_add newPosition (mHedges t)) newPosition = plain_check newPosition
             \<and> hedged_check (long_sub newPosition (mHedges t)) newPosition = plain_check newPosition))"
proof (intro conjI impI)
  show "mHedges initial_trader = 0" by (simp add: initial_trader_def)
next
  assume "handle cfg (s, g) ev = Inr (s', g')"
  then show "mHedges s' = mHedges s" using handle_invariant by blast
next
  assume r: "run cfg (initial_trader, initial_globals) evs = Inr (t, h)"
  show z: "mHedges t = 0" using reachable_position(2) [OF r] .
  assume np: "LONG_MIN \<le> newPosition \<and> newPosition \<le> LONG_MAX"
  show "hedged_check (long_add newPosition (mHedges t)) newPosition = plain_check newPosition"
    using np z hedged_is_plain(1) by simp
  show "hedged_check (long_sub newPosition (mHedges t)) newPosition = plain_check newPosition"
    using np z hedged_is_plain(2) by simp
qed

theorem mHedges_always_zero_witness:
  "(\<exists>s g. handle exact_env (initial_trader, initial_globals)
             (OrderBook FUTURE 1 (one_level 1002) (one_level 30) (one_level 998) (one_level 50))
           = Inr (s, g) \<and> mHedges s = mHedges initial_trader)
   \<and> (\<exists>t h. run exact_env (initial_trader, initial_globals)
               [OrderBook FUTURE 1 (one_level 1002) (one_level 30) (one_level 998) (one_level 50),
                OrderFilled 2 900 100] = Inr (t, h)
             \<and> mHedges t = 0 \<and> LONG_MIN \<le> 101 \<and> 101 \<le> LONG_MAX
             \<and> hedged_check (long_add 101 (mHedges t)) 101 = plain_check 101
             \<and> hedged_check (long_sub 101 (mHedges t)) 101 = plain_check 101)"
proof -
  obtain g1 where g1:
    "OrderBookMessageHandler exact_env (initial_trader, initial_globals) FUTURE 1
       (one_level 1002) (one_level 30) (one_level 998) (one_level 50) = Inr (quoting_trader, g1)"
    using first_update by blast
  obtain t h where r: "run exact_env (initial_trader, initial_globals)
               [OrderBook FUTURE 1 (one_level 1002) (one_level 30) (one_level 998) (one_level 50),
                OrderFilled 2 900 100] = Inr (t, h)"
    using example_fill by blast
  have range: "LONG_MIN \<le> 101 \<and> 101 \<le> LONG_MAX" by (simp add: LONG_MIN_def LONG_MAX_def)
  have first: "handle exact_env (initial_trader, initial_globals)
             (OrderBook FUTURE 1 (one_level 1002) (one_level 30) (one_level 998) (one_level 50))
           = Inr (quoting_trader, g1)"
    using g1 by simp
  show ?thesis
    using mHedges_always_zero [of exact_env initial_trader initial_globals
        "OrderBook FUTURE 1 (one_level 1002) (one_level 30) (one_level 998) (one_level 50)"
        quoting_trader g1
        "[OrderBook FUTURE 1 (one_level 1002) (one_level 30) (one_level 998) (one_level 50),
          OrderFilled 2 900 100]" t h 101]
      first r range
    by blast
qed

section \<open>Cancelling and replacing a quote\<close>

text \<open>
  C5, as amended. An order book for the FUTURE arrives while a side holds an active order
  and no cancel is pending for it, the new target price is not 0 and differs from the
  quoted price, and the quote size is positive (the indicator state being well formed and
  the prices and sizes defined). Then the handler returns, it sends the cancel of the
  outstanding order, it sends no insert on that side in that update, the pending-cancel
  flag of the side is set, the tracked id and the set of active orders of the side are
  unchanged, and the quoted price becomes the target. The first half is the ask side, the
  second the bid side.
\<close>

theorem cancel_without_replace:
  "(globals_wf g
     \<and> newAskPrice cfg s askPrices askVolumes bidPrices bidVolumes = Inr newAsk
     \<and> newBidPrice cfg s askPrices askVolumes bidPrices bidVolumes = Inr newBid
     \<and> askQuantity s = Inr askQty \<and> bidQuantity s = Inr bidQty
     \<and> mAskId s \<noteq> 0 \<and> \<not> PendingCancelAsk s
     \<and> newAsk \<noteq> 0 \<and> newAsk \<noteq> mAskPrice s \<and> 0 < askQty
    \<longrightarrow> (\<exists>s' g' new.
          OrderBookMessageHandler cfg (s, g) FUTURE sequenceNumber askPrices askVolumes
            bidPrices bidVolumes = Inr (s', g')
          \<and> sent s' = sent s @ new \<and> SendCancelOrder (mAskId s) \<in> set new
          \<and> filter (is_insert_on Side_SELL) new = []
          \<and> PendingCancelAsk s' \<and> mAskId s' = mAskId s \<and> mAsks s' = mAsks s
          \<and> mAskPrice s' = newAsk))
   \<and> (globals_wf g
     \<and> newAskPrice cfg s askPrices askVolumes bidPrices bidVolumes = Inr newAsk
     \<and> newBidPrice cfg s askPrices askVolumes bidPrices bidVolumes = Inr newBid
     \<and> askQuantity s = Inr askQty \<and> bidQuantity s = Inr bidQty
     \<and> mBidId s \<noteq> 0 \<and> \<not> PendingCancelBid s
     \<and> newBid \<noteq> 0 \<and> newBid \<noteq> mBidPrice s \<and> 0 < bidQty
    \<longrightarrow> (\<exists>s' g' new.
          OrderBookMessageHandler cfg (s, g) FUTURE sequenceNumber askPrices askVolumes
            bidPrices bidVolumes = Inr (s', g')
          \<and> sent s' = sent s @ new \<and> SendCancelOrder (mBidId s) \<in> set new
          \<and> filter (is_insert_on Side_BUY) new = []
          \<and> PendingCancelBid s' \<and> mBidId s' = mBidId s \<and> mBids s' = mBids s
          \<and> mBidPrice s' = newBid))"
proof (intro conjI impI)
  assume a: "globals_wf g
     \<and> newAskPrice cfg s askPrices askVolumes bidPrices bidVolumes = Inr newAsk
     \<and> newBidPrice cfg s askPrices askVolumes bidPrices bidVolumes = Inr newBid
     \<and> askQuantity s = Inr askQty \<and> bidQuantity s = Inr bidQty
     \<and> mAskId s \<noteq> 0 \<and> \<not> PendingCancelAsk s
     \<and> newAsk \<noteq> 0 \<and> newAsk \<noteq> mAskPrice s \<and> 0 < askQty"
  let ?sa = "s\<lparr>sent := sent s @ [SendCancelOrder (mAskId s)], PendingCancelAsk := True,
              mAskPrice := newAsk\<rparr>"
  have ask: "requoteAsk s newAsk askQty = ?sa" using a by (simp add: requoteAsk_active)
  obtain g' where
    h: "OrderBookMessageHandler cfg (s, g) FUTURE sequenceNumber askPrices askVolumes
          bidPrices bidVolumes = Inr (requoteBid ?sa newBid bidQty, g')"
    using OrderBookMessageHandler_requotes [of g cfg s askPrices askVolumes bidPrices bidVolumes
        newAsk newBid askQty bidQty sequenceNumber] a ask
    by auto
  obtain bidMsgs where
    b: "sent (requoteBid ?sa newBid bidQty) = sent ?sa @ bidMsgs"
      "filter (is_insert_on Side_SELL) bidMsgs = []"
    using requoteBid_sent by blast
  have "sent (requoteBid ?sa newBid bidQty) = sent s @ (SendCancelOrder (mAskId s) # bidMsgs)"
    using b(1) by simp
  moreover have "filter (is_insert_on Side_SELL) (SendCancelOrder (mAskId s) # bidMsgs) = []"
    using b(2) by simp
  ultimately show "\<exists>s' g' new.
          OrderBookMessageHandler cfg (s, g) FUTURE sequenceNumber askPrices askVolumes
            bidPrices bidVolumes = Inr (s', g')
          \<and> sent s' = sent s @ new \<and> SendCancelOrder (mAskId s) \<in> set new
          \<and> filter (is_insert_on Side_SELL) new = []
          \<and> PendingCancelAsk s' \<and> mAskId s' = mAskId s \<and> mAsks s' = mAsks s
          \<and> mAskPrice s' = newAsk"
    using h by (simp add: requoteBid_frame)
next
  assume a: "globals_wf g
     \<and> newAskPrice cfg s askPrices askVolumes bidPrices bidVolumes = Inr newAsk
     \<and> newBidPrice cfg s askPrices askVolumes bidPrices bidVolumes = Inr newBid
     \<and> askQuantity s = Inr askQty \<and> bidQuantity s = Inr bidQty
     \<and> mBidId s \<noteq> 0 \<and> \<not> PendingCancelBid s
     \<and> newBid \<noteq> 0 \<and> newBid \<noteq> mBidPrice s \<and> 0 < bidQty"
  let ?sa = "requoteAsk s newAsk askQty"
  let ?sb = "?sa\<lparr>sent := sent ?sa @ [SendCancelOrder (mBidId s)], PendingCancelBid := True,
              mBidPrice := newBid\<rparr>"
  have bid: "requoteBid ?sa newBid bidQty = ?sb"
    using a requoteBid_active [of ?sa newBid bidQty] by (simp add: requoteAsk_frame)
  obtain g' where
    h: "OrderBookMessageHandler cfg (s, g) FUTURE sequenceNumber askPrices askVolumes
          bidPrices bidVolumes = Inr (?sb, g')"
    using OrderBookMessageHandler_requotes [of g cfg s askPrices askVolumes bidPrices bidVolumes
        newAsk newBid askQty bidQty sequenceNumber] a bid
    by auto
  obtain askMsgs where
    b: "sent ?sa = sent s @ askMsgs" "filter (is_insert_on Side_BUY) askMsgs = []"
    using requoteAsk_sent by blast
  have "sent ?sb = sent s @ (askMsgs @ [SendCancelOrder (mBidId s)])"
    using b(1) by simp
  moreover have "filter (is_insert_on Side_BUY) (askMsgs @ [SendCancelOrder (mBidId s)]) = []"
    using b(2) by simp
  ultimately show "\<exists>s' g' new.
          OrderBookMessageHandler cfg (s, g) FUTURE sequenceNumber askPrices askVolumes
            bidPrices bidVolumes = Inr (s', g')
          \<and> sent s' = sent s @ new \<and> SendCancelOrder (mBidId s) \<in> set new
          \<and> filter (is_insert_on Side_BUY) new = []
          \<and> PendingCancelBid s' \<and> mBidId s' = mBidId s \<and> mBids s' = mBids s
          \<and> mBidPrice s' = newBid"
    using h
    by (simp add: requoteAsk_frame)
qed

theorem cancel_without_replace_witness:
  "globals_wf initial_globals
   \<and> newAskPrice exact_env quoting_trader (one_level 1102) (one_level 30) (one_level 1098)
        (one_level 50) = Inr 1100
   \<and> newBidPrice exact_env quoting_trader (one_level 1102) (one_level 30) (one_level 1098)
        (one_level 50) = Inr 1000
   \<and> askQuantity quoting_trader = Inr 100 \<and> bidQuantity quoting_trader = Inr 100
   \<and> mAskId quoting_trader \<noteq> 0 \<and> \<not> PendingCancelAsk quoting_trader
   \<and> (1100 :: ulong) \<noteq> 0 \<and> 1100 \<noteq> mAskPrice quoting_trader \<and> (0 :: ulong) < 100
   \<and> mBidId quoting_trader \<noteq> 0 \<and> \<not> PendingCancelBid quoting_trader
   \<and> (1000 :: ulong) \<noteq> 0 \<and> 1000 \<noteq> mBidPrice quoting_trader
   \<and> (\<exists>s' g' new.
          OrderBookMessageHandler exact_env (quoting_trader, initial_globals) FUTURE 2
            (one_level 1102) (one_level 30) (one_level 1098) (one_level 50) = Inr (s', g')
          \<and> sent s' = sent quoting_trader @ new \<and> SendCancelOrder 1 \<in> set new
          \<and> filter (is_insert_on Side_SELL) new = [] \<and> PendingCancelAsk s')
   \<and> (\<exists>s' g' new.
          OrderBookMessageHandler exact_env (quoting_trader, initial_globals) FUTURE 2
            (one_level 1102) (one_level 30) (one_level 1098) (one_level 50) = Inr (s', g')
          \<and> sent s' = sent quoting_trader @ new \<and> SendCancelOrder 2 \<in> set new
          \<and> filter (is_insert_on Side_BUY) new = [] \<and> PendingCancelBid s')"
proof -
  have ids: "mAskId quoting_trader = 1" "\<not> PendingCancelAsk quoting_trader"
    "mAskPrice quoting_trader = 1000" "mBidId quoting_trader = 2"
    "\<not> PendingCancelBid quoting_trader" "mBidPrice quoting_trader = 900"
    by (simp_all add: quoting_trader_def initial_trader_def)
  show ?thesis
    using cancel_without_replace [of initial_globals exact_env quoting_trader
        "one_level 1102" "one_level 30" "one_level 1098" "one_level 50" 1100 1000 100 100 2]
      initial_globals_wf second_quote_prices ids
    by simp blast
qed

text \<open>
  C5 as stated fails. After the first order book the trader quotes the ask 1 at 1000 and
  the bid 2 at 900 with no cancel pending; the next order book (best ask 1102, best bid
  1098) moves the ask target to 1100 with size 100. The update sends the two cancels and
  no insert.
\<close>

theorem replace_not_sent_counterexample:
  "(\<exists>g1. run exact_env (initial_trader, initial_globals)
            [OrderBook FUTURE 1 (one_level 1002) (one_level 30) (one_level 998) (one_level 50)]
          = Inr (quoting_trader, g1))
   \<and> mAskId quoting_trader = 1 \<and> \<not> PendingCancelAsk quoting_trader
   \<and> mAskPrice quoting_trader = 1000
   \<and> newAskPrice exact_env quoting_trader (one_level 1102) (one_level 30) (one_level 1098)
        (one_level 50) = Inr 1100
   \<and> askQuantity quoting_trader = Inr 100
   \<and> (\<exists>s g. run exact_env (initial_trader, initial_globals)
              [OrderBook FUTURE 1 (one_level 1002) (one_level 30) (one_level 998) (one_level 50),
               OrderBook FUTURE 2 (one_level 1102) (one_level 30) (one_level 1098) (one_level 50)]
            = Inr (s, g)
          \<and> sent s = sent quoting_trader @ [SendCancelOrder 1, SendCancelOrder 2]
          \<and> filter (is_insert_on Side_SELL) [SendCancelOrder 1, SendCancelOrder 2] = [])"
proof -
  obtain g1 where g1: "globals_wf g1"
    "OrderBookMessageHandler exact_env (initial_trader, initial_globals) FUTURE 1
       (one_level 1002) (one_level 30) (one_level 998) (one_level 50) = Inr (quoting_trader, g1)"
    using first_update by blast
  obtain g2 where g2:
    "OrderBookMessageHandler exact_env (quoting_trader, g1) FUTURE 2
       (one_level 1102) (one_level 30) (one_level 1098) (one_level 50)
     = Inr (quoting_trader\<lparr>mAskPrice := 1100, mBidPrice := 1000, PendingCancelAsk := True,
              PendingCancelBid := True,
              sent := sent quoting_trader @ [SendCancelOrder 1, SendCancelOrder 2]\<rparr>, g2)"
    using second_update [OF g1(1)] by blast
  have "mAskId quoting_trader = 1" "\<not> PendingCancelAsk quoting_trader"
    "mAskPrice quoting_trader = 1000"
    by (simp_all add: quoting_trader_def initial_trader_def)
  then show ?thesis using g1(2) g2 second_quote_prices(1,3) by simp
qed

section \<open>The signal in the order-book handler\<close>

lemma actOnSignal_BUY:
  "globals_wf g \<Longrightarrow> actOnSignal g BUY s newAsk askQty newBid bidQty = requoteBid s newBid bidQty"
  by (simp add: actOnSignal_def globals_wf_def leading_span_b_window_def)

lemma actOnSignal_SELL:
  "actOnSignal g SELL s newAsk askQty newBid bidQty = requoteAsk s newAsk askQty"
  by (simp add: actOnSignal_def)

text \<open>
  C6, as amended. Whatever the signal and whatever the indicator state (the
  leading-span-B window full or not), the part of the handler that follows the call of
  Ichimoku changes nothing and sends nothing when it runs, as it always does, after the
  two requote blocks: the trader's state after an order book for the FUTURE is the state
  after those two blocks.
\<close>

theorem signal_changes_nothing:
  "afterIchimoku g signal (requoteBid (requoteAsk s newAsk askQty) newBid bidQty)
       midPrice newAsk askQty newBid bidQty
     = requoteBid (requoteAsk s newAsk askQty) newBid bidQty
   \<and> (OrderBookMessageHandler cfg (s, g) FUTURE sequenceNumber askPrices askVolumes bidPrices
         bidVolumes = Inr (s', g')
       \<longrightarrow> (\<exists>newAsk' newBid' askQty' bidQty'.
              newAskPrice cfg s askPrices askVolumes bidPrices bidVolumes = Inr newAsk'
              \<and> newBidPrice cfg s askPrices askVolumes bidPrices bidVolumes = Inr newBid'
              \<and> askQuantity s = Inr askQty' \<and> bidQuantity s = Inr bidQty'
              \<and> s' = requoteBid (requoteAsk s newAsk' askQty') newBid' bidQty'))"
proof (intro conjI impI)
  show "afterIchimoku g signal (requoteBid (requoteAsk s newAsk askQty) newBid bidQty)
       midPrice newAsk askQty newBid bidQty
     = requoteBid (requoteAsk s newAsk askQty) newBid bidQty"
    by (rule afterIchimoku_requoted)
next
  assume "OrderBookMessageHandler cfg (s, g) FUTURE sequenceNumber askPrices askVolumes bidPrices
         bidVolumes = Inr (s', g')"
  then show "\<exists>newAsk' newBid' askQty' bidQty'.
              newAskPrice cfg s askPrices askVolumes bidPrices bidVolumes = Inr newAsk'
              \<and> newBidPrice cfg s askPrices askVolumes bidPrices bidVolumes = Inr newBid'
              \<and> askQuantity s = Inr askQty' \<and> bidQuantity s = Inr bidQty'
              \<and> s' = requoteBid (requoteAsk s newAsk' askQty') newBid' bidQty'"
    by (auto simp: OrderBookMessageHandler_FUTURE split: sum.splits prod.splits)
qed

theorem signal_changes_nothing_witness:
  "afterIchimoku initial_globals SELL (requoteBid (requoteAsk initial_trader 1000 100) 900 100)
       1000 1000 100 900 100
     = quoting_trader
   \<and> (\<exists>g1. OrderBookMessageHandler exact_env (initial_trader, initial_globals) FUTURE 1
         (one_level 1002) (one_level 30) (one_level 998) (one_level 50) = Inr (quoting_trader, g1))
   \<and> newAskPrice exact_env initial_trader (one_level 1002) (one_level 30) (one_level 998)
        (one_level 50) = Inr 1000
   \<and> newBidPrice exact_env initial_trader (one_level 1002) (one_level 30) (one_level 998)
        (one_level 50) = Inr 900
   \<and> askQuantity initial_trader = Inr 100 \<and> bidQuantity initial_trader = Inr 100
   \<and> quoting_trader = requoteBid (requoteAsk initial_trader 1000 100) 900 100"
proof -
  obtain g1 where g1:
    "OrderBookMessageHandler exact_env (initial_trader, initial_globals) FUTURE 1
       (one_level 1002) (one_level 30) (one_level 998) (one_level 50) = Inr (quoting_trader, g1)"
    using first_update by blast
  show ?thesis
    using signal_changes_nothing [of initial_globals SELL initial_trader 1000 100 900 100 1000
        exact_env 1 "one_level 1002" "one_level 30" "one_level 998" "one_level 50"
        quoting_trader g1]
      g1 first_requote first_quote_prices
    by auto
qed

text \<open>
  C6 as stated fails. With an empty leading-span-B window the BUY branch, taken alone on
  a state whose bid is quoted at another price, cancels the bid: the guard does not test
  the fill count. And there is no order-book update in which a SELL signal triggers a
  cancel or an insert: after the requote blocks the code that follows the signal never
  changes the state.
\<close>

theorem sell_signal_counterexample:
  "leadingSpanBCount initial_globals < leading_span_b_window
   \<and> sent (actOnSignal initial_globals BUY quoting_trader 1100 100 1000 100)
       = sent quoting_trader @ [SendCancelOrder 2]
   \<and> \<not> (\<exists>g s newAsk askQty newBid bidQty midPrice.
          afterIchimoku g SELL (requoteBid (requoteAsk s newAsk askQty) newBid bidQty)
            midPrice newAsk askQty newBid bidQty
          \<noteq> requoteBid (requoteAsk s newAsk askQty) newBid bidQty)"
proof (intro conjI)
  show "leadingSpanBCount initial_globals < leading_span_b_window"
    by (simp add: initial_globals_def leading_span_b_window_def)
  show "sent (actOnSignal initial_globals BUY quoting_trader 1100 100 1000 100)
       = sent quoting_trader @ [SendCancelOrder 2]"
    by (simp add: actOnSignal_BUY [OF initial_globals_wf] requoteBid_def quoting_trader_def
          initial_trader_def Let_def)
  show "\<not> (\<exists>g s newAsk askQty newBid bidQty midPrice.
          afterIchimoku g SELL (requoteBid (requoteAsk s newAsk askQty) newBid bidQty)
            midPrice newAsk askQty newBid bidQty
          \<noteq> requoteBid (requoteAsk s newAsk askQty) newBid bidQty)"
    by (simp add: afterIchimoku_requoted)
qed

section \<open>Status updates\<close>

lemma map_of_subscript_assign:
  "map_of (subscript_assign m k f) k = Some (f (case map_of m k of None \<Rightarrow> 0 | Some v \<Rightarrow> v))"
proof (cases "map_of m k")
  case None
  then show ?thesis by (simp add: subscript_assign_def map_add_def)
next
  case (Some v)
  have "map_of m k = Some v \<Longrightarrow>
        map_of (map (\<lambda>(k', v'). if k' = k then (k', f v') else (k', v')) m) k = Some (f v)"
    by (induction m) (auto split: if_splits)
  then show ?thesis using Some by (simp add: subscript_assign_def)
qed

text \<open>
  C7, as amended. After a status update with zero remaining volume for an order id, a
  further status update for the same id leaves the position unchanged; it leaves the
  long, short and lot-size maps unchanged when it reports zero remaining volume too; when
  it reports a nonzero remaining volume, the entry of the id in the long inventory becomes
  its old value (0 when absent) plus the fees, the entry in the short inventory its old
  value (0 when absent) minus the fees, and the entry in the lot sizes the remaining
  volume.
\<close>

theorem status_after_terminal_status:
  "(let s1 = OrderStatusMessageHandler s clientOrderId fillVolume 0 fees;
        s2 = OrderStatusMessageHandler s1 clientOrderId fillVolume' remainingVolume' fees'
    in mPosition s2 = mPosition s1
       \<and> (remainingVolume' = 0 \<longrightarrow>
            longInventory s2 = longInventory s1 \<and> shortInventory s2 = shortInventory s1
            \<and> lotSize s2 = lotSize s1)
       \<and> (remainingVolume' \<noteq> 0 \<longrightarrow>
            map_of (longInventory s2) clientOrderId
              = Some ((case map_of (longInventory s1) clientOrderId of
                         None \<Rightarrow> 0 | Some cost \<Rightarrow> cost) + to_ulong fees')
            \<and> map_of (shortInventory s2) clientOrderId
              = Some ((case map_of (shortInventory s1) clientOrderId of
                         None \<Rightarrow> 0 | Some cost \<Rightarrow> cost) - to_ulong fees')
            \<and> map_of (lotSize s2) clientOrderId = Some remainingVolume'))"
  by (simp add: Let_def OrderStatus_frame)
     (simp add: OrderStatusMessageHandler_def Let_def map_of_subscript_assign)

theorem status_after_terminal_status_witness:
  "(let s1 = OrderStatusMessageHandler quoting_trader 1 0 0 0;
        s2 = OrderStatusMessageHandler s1 1 0 0 0;
        s3 = OrderStatusMessageHandler s1 1 60 40 7
    in mPosition s2 = mPosition s1 \<and> (0 :: ulong) = 0
       \<and> longInventory s2 = longInventory s1 \<and> shortInventory s2 = shortInventory s1
       \<and> lotSize s2 = lotSize s1
       \<and> (40 :: ulong) \<noteq> 0
       \<and> map_of (longInventory s3) 1 = Some 7
       \<and> map_of (shortInventory s3) 1 = Some (- 7)
       \<and> map_of (lotSize s3) 1 = Some 40)"
  using status_after_terminal_status [of quoting_trader 1 0 0 0 0 0]
    status_after_terminal_status [of quoting_trader 1 0 0 60 40 7]
  by (simp add: Let_def OrderStatusMessageHandler_def quoting_trader_def initial_trader_def
        to_ulong_def)

text \<open>
  C7 as stated fails. The quoting trader receives the terminal status of its ask 1 and
  then a status for the same id with 40 lots remaining and fees 7: the long and the short
  inventory, empty before, each get an entry for the id.
\<close>

theorem status_after_terminal_status_counterexample:
  "(let s1 = OrderStatusMessageHandler quoting_trader 1 0 0 0;
        s2 = OrderStatusMessageHandler s1 1 60 40 7
    in mAskId s1 = 0 \<and> mAsks s1 = {}
       \<and> longInventory s1 = [] \<and> longInventory s2 = [(1, 7)]
       \<and> shortInventory s1 = [] \<and> shortInventory s2 = [(1, - 7)])"
  by (simp add: Let_def OrderStatusMessageHandler_def subscript_assign_def quoting_trader_def
        initial_trader_def to_ulong_def)

text \<open>
  C8, as amended. For a status update whose order id is neither the tracked ask or bid id
  nor in an active-order set nor a key of the long, short or lot-size map: with zero
  remaining volume the whole state is unchanged; with a nonzero remaining volume the
  handler adds the entries \<open>fees\<close> to the long inventory, \<open>- fees\<close> to the short
  inventory and the remaining volume to the lot sizes under that id, and changes nothing
  else. The handler has no undefined behaviour.
\<close>

theorem unknown_id_status:
  "clientOrderId \<noteq> mAskId s \<and> clientOrderId \<noteq> mBidId s
   \<and> clientOrderId \<notin> mAsks s \<and> clientOrderId \<notin> mBids s
   \<and> map_of (longInventory s) clientOrderId = None
   \<and> map_of (shortInventory s) clientOrderId = None
   \<and> map_of (lotSize s) clientOrderId = None
   \<longrightarrow> OrderStatusMessageHandler s clientOrderId fillVolume remainingVolume fees
       = (if remainingVolume = 0 then s
          else s\<lparr>longInventory := longInventory s @ [(clientOrderId, to_ulong fees)],
                 shortInventory := shortInventory s @ [(clientOrderId, - to_ulong fees)],
                 lotSize := lotSize s @ [(clientOrderId, remainingVolume)]\<rparr>)"
  by (simp add: OrderStatusMessageHandler_def subscript_assign_def Let_def)

theorem unknown_id_status_witness:
  "(7 :: ulong) \<noteq> mAskId quoting_trader \<and> 7 \<noteq> mBidId quoting_trader
   \<and> 7 \<notin> mAsks quoting_trader \<and> 7 \<notin> mBids quoting_trader
   \<and> map_of (longInventory quoting_trader) 7 = None
   \<and> map_of (shortInventory quoting_trader) 7 = None
   \<and> map_of (lotSize quoting_trader) 7 = None
   \<and> OrderStatusMessageHandler quoting_trader 7 0 0 0 = quoting_trader
   \<and> OrderStatusMessageHandler quoting_trader 7 0 5 3
       = quoting_trader\<lparr>longInventory := [(7, 3)], shortInventory := [(7, - 3)],
           lotSize := [(7, 5)]\<rparr>"
  using unknown_id_status [of 7 quoting_trader 0 0 0] unknown_id_status [of 7 quoting_trader 0 5 3]
  by (simp add: quoting_trader_def initial_trader_def to_ulong_def)

text \<open>
  C8 as stated fails. Order id 7 is unknown to the quoting trader; a status update for it
  with 5 lots remaining and fees 3 changes the state: it creates three entries.
\<close>

theorem unknown_id_status_counterexample:
  "(7 :: ulong) \<noteq> mAskId quoting_trader \<and> 7 \<noteq> mBidId quoting_trader
   \<and> 7 \<notin> mAsks quoting_trader \<and> 7 \<notin> mBids quoting_trader
   \<and> map_of (longInventory quoting_trader) 7 = None
   \<and> map_of (shortInventory quoting_trader) 7 = None
   \<and> map_of (lotSize quoting_trader) 7 = None
   \<and> OrderStatusMessageHandler quoting_trader 7 0 5 3 \<noteq> quoting_trader
   \<and> longInventory (OrderStatusMessageHandler quoting_trader 7 0 5 3) = [(7, 3)]
   \<and> shortInventory (OrderStatusMessageHandler quoting_trader 7 0 5 3) = [(7, - 3)]
   \<and> lotSize (OrderStatusMessageHandler quoting_trader 7 0 5 3) = [(7, 5)]"
proof -
  have l: "longInventory (OrderStatusMessageHandler quoting_trader 7 0 5 3) = [(7, 3)]"
    by (simp add: OrderStatusMessageHandler_def subscript_assign_def quoting_trader_def
          initial_trader_def to_ulong_def)
  have "longInventory quoting_trader = []" by (simp add: quoting_trader_def initial_trader_def)
  then have "OrderStatusMessageHandler quoting_trader 7 0 5 3 \<noteq> quoting_trader"
    using l by auto
  then show ?thesis
    by (simp add: OrderStatusMessageHandler_def subscript_assign_def quoting_trader_def
          initial_trader_def to_ulong_def)
qed

end
